theory Spec2Isabelle
  imports Complex_Main "HOL-Library.Sublist" "HOL-Library.Monad_Syntax"
begin

section \<open>Data model\<close>

text \<open>
  The record of \<^verbatim>\<open>pkg/models/profile.go\<close>. Go strings are byte sequences, so a
  \<^typ>\<open>string\<close> here is the list of the bytes and \<^const>\<open>length\<close> is Go's
  \<^verbatim>\<open>len\<close>. The two timestamps are what \<^verbatim>\<open>time.Now().Format(time.RFC3339)\<close>
  renders, a wall-clock instant at one-second resolution; the model keeps the instant
  itself, as a number of seconds, ordered chronologically. \<^verbatim>\<open>Score\<close> is a
  \<^verbatim>\<open>float64\<close>; the only values the harvester puts there are fetch identifiers,
  which a \<^verbatim>\<open>float64\<close> holds exactly, so the field is a \<^typ>\<open>real\<close>.
\<close>

type_synonym timestamp = nat

record profile =
  Name :: string
  URL :: string
  Verdict :: string
  Description :: string
  Pros :: "string list"
  Cons :: "string list"
  Score :: real
  Category :: string
  ImageURL :: string
  CreatedAt :: timestamp
  UpdatedAt :: timestamp

section \<open>The string functions of Go's library that the harvester calls\<close>

text \<open>
  \<^verbatim>\<open>strings.Contains(s, sub)\<close> is \<^term>\<open>sublist sub s\<close>, \<^verbatim>\<open>strings.HasPrefix(s, p)\<close> is
  \<^term>\<open>prefix p s\<close> and \<^verbatim>\<open>strings.HasSuffix(s, p)\<close> is \<^term>\<open>suffix p s\<close>; each
  of the three takes its arguments in the other order.
\<close>

definition Contains :: "string \<Rightarrow> string \<Rightarrow> bool" where
  "Contains s sub = sublist sub s"

definition HasPrefix :: "string \<Rightarrow> string \<Rightarrow> bool" where
  "HasPrefix s p = prefix p s"

definition HasSuffix :: "string \<Rightarrow> string \<Rightarrow> bool" where
  "HasSuffix s p = suffix p s"

definition TrimPrefix :: "string \<Rightarrow> string \<Rightarrow> string" where
  "TrimPrefix s p = (if HasPrefix s p then drop (length p) s else s)"

definition TrimSuffix :: "string \<Rightarrow> string \<Rightarrow> string" where
  "TrimSuffix s p = (if HasSuffix s p then take (length s - length p) s else s)"

text \<open>\<^verbatim>\<open>strings.Index\<close> and \<^verbatim>\<open>strings.LastIndex\<close>: a byte offset, or \<open>-1\<close>.\<close>

fun Index :: "string \<Rightarrow> string \<Rightarrow> int" where
  "Index [] sub = (if sub = [] then 0 else -1)"
| "Index (c # cs) sub =
     (if prefix sub (c # cs) then 0
      else (let r = Index cs sub in if 0 \<le> r then r + 1 else -1))"

fun LastIndex :: "string \<Rightarrow> string \<Rightarrow> int" where
  "LastIndex [] sub = (if sub = [] then 0 else -1)"
| "LastIndex (c # cs) sub =
     (let r = LastIndex cs sub
      in if 0 \<le> r then r + 1 else if prefix sub (c # cs) then 0 else -1)"

text \<open>
  \<^verbatim>\<open>strings.Split(s, sep)\<close> cuts at every occurrence of \<open>sep\<close>, found from the left and
  not overlapping. The harvester only passes constant, non-empty separators; for the
  empty separator Go explodes the string into its UTF-8 sequences, which is given here
  byte by byte.
\<close>

function Split :: "string \<Rightarrow> string \<Rightarrow> string list" where
  "Split s sep =
     (if sep = [] then map (\<lambda>c. [c]) s
      else if Index s sep < 0 then [s]
      else take (nat (Index s sep)) s # Split (drop (nat (Index s sep) + length sep) s) sep)"
  by pat_completeness auto

lemma Index_bound: "0 \<le> Index s sub \<Longrightarrow> nat (Index s sub) + length sub \<le> length s"
proof (induction s)
  case Nil
  then show ?case by (simp split: if_splits)
next
  case (Cons c cs)
  show ?case
  proof (cases "prefix sub (c # cs)")
    case True
    then show ?thesis using prefix_length_le [of sub "c # cs"] by simp
  next
    case False
    with Cons.prems have r: "0 \<le> Index cs sub" by (simp add: Let_def split: if_splits)
    with Cons.IH have "nat (Index cs sub) + length sub \<le> length cs" by simp
    with False r show ?thesis by (simp add: Let_def nat_add_distrib)
  qed
qed

termination Split
proof (relation "measure (\<lambda>(s, sep). length s)")
  show "wf (measure (\<lambda>(s, sep). length s))" by simp
next
  fix s sep :: string
  assume "sep \<noteq> []" and "\<not> Index s sep < 0"
  then have "nat (Index s sep) + length sep \<le> length s" and "0 < length sep"
    using Index_bound [of s sep] by simp_all
  then have "length s - (nat (Index s sep) + length sep) < length s"
    by linarith
  then show "((drop (nat (Index s sep) + length sep) s, sep), (s, sep))
      \<in> measure (\<lambda>(s, sep). length s)"
    by simp
qed

declare Split.simps [simp del]

text \<open>\<^verbatim>\<open>strings.SplitN(s, sep, 2)\<close> for a non-empty separator (the only use here): cut
  at the first occurrence only.\<close>

definition SplitN2 :: "string \<Rightarrow> string \<Rightarrow> string list" where
  "SplitN2 s sep =
     (if Index s sep < 0 then [s]
      else [take (nat (Index s sep)) s, drop (nat (Index s sep) + length sep) s])"

text \<open>
  \<^verbatim>\<open>strings.TrimSpace\<close> removes the leading and the trailing code points for which
  \<^verbatim>\<open>unicode.IsSpace\<close> holds. The table lists their UTF-8 encodings: the six ASCII
  ones, U+0085, U+00A0, U+1680, U+2000 to U+200A, U+2028, U+2029, U+202F, U+205F and
  U+3000. A UTF-8 encoding at the head or the tail of a byte string is decoded as such
  whatever surrounds it, so the trimming is the removal of these byte sequences.
\<close>

definition whiteSpace :: "string list" where
  "whiteSpace =
    [[CHR 0x09], [CHR 0x0A], [CHR 0x0B], [CHR 0x0C], [CHR 0x0D], [CHR 0x20],
     [CHR 0xC2, CHR 0x85], [CHR 0xC2, CHR 0xA0], [CHR 0xE1, CHR 0x9A, CHR 0x80],
     [CHR 0xE2, CHR 0x80, CHR 0x80], [CHR 0xE2, CHR 0x80, CHR 0x81],
     [CHR 0xE2, CHR 0x80, CHR 0x82], [CHR 0xE2, CHR 0x80, CHR 0x83],
     [CHR 0xE2, CHR 0x80, CHR 0x84], [CHR 0xE2, CHR 0x80, CHR 0x85],
     [CHR 0xE2, CHR 0x80, CHR 0x86], [CHR 0xE2, CHR 0x80, CHR 0x87],
     [CHR 0xE2, CHR 0x80, CHR 0x88], [CHR 0xE2, CHR 0x80, CHR 0x89],
     [CHR 0xE2, CHR 0x80, CHR 0x8A], [CHR 0xE2, CHR 0x80, CHR 0xA8],
     [CHR 0xE2, CHR 0x80, CHR 0xA9], [CHR 0xE2, CHR 0x80, CHR 0xAF],
     [CHR 0xE2, CHR 0x81, CHR 0x9F], [CHR 0xE3, CHR 0x80, CHR 0x80]]"

definition leadingSpace :: "string \<Rightarrow> nat" where
  "leadingSpace s = (case List.find (\<lambda>w. prefix w s) whiteSpace of None \<Rightarrow> 0 | Some w \<Rightarrow> length w)"

definition trailingSpace :: "string \<Rightarrow> nat" where
  "trailingSpace s = (case List.find (\<lambda>w. suffix w s) whiteSpace of None \<Rightarrow> 0 | Some w \<Rightarrow> length w)"

lemma leadingSpace_le: "leadingSpace s \<le> length s"
  by (auto simp: leadingSpace_def find_Some_iff prefix_length_le split: option.splits)

lemma trailingSpace_le: "trailingSpace s \<le> length s"
  by (auto simp: trailingSpace_def find_Some_iff suffix_length_le split: option.splits)

function TrimLeftSpace :: "string \<Rightarrow> string" where
  "TrimLeftSpace s = (if leadingSpace s = 0 then s else TrimLeftSpace (drop (leadingSpace s) s))"
  by pat_completeness auto
termination
proof (relation "measure length")
  show "wf (measure length)" by simp
next
  fix s :: string
  assume "leadingSpace s \<noteq> 0"
  then show "(drop (leadingSpace s) s, s) \<in> measure length"
    using leadingSpace_le [of s] by simp
qed

function TrimRightSpace :: "string \<Rightarrow> string" where
  "TrimRightSpace s =
     (if trailingSpace s = 0 then s else TrimRightSpace (take (length s - trailingSpace s) s))"
  by pat_completeness auto
termination
proof (relation "measure length")
  show "wf (measure length)" by simp
next
  fix s :: string
  assume "trailingSpace s \<noteq> 0"
  then show "(take (length s - trailingSpace s) s, s) \<in> measure length"
    using trailingSpace_le [of s] by simp
qed

declare TrimLeftSpace.simps [simp del] TrimRightSpace.simps [simp del]

definition TrimSpace :: "string \<Rightarrow> string" where
  "TrimSpace s = TrimRightSpace (TrimLeftSpace s)"

text \<open>
  \<^verbatim>\<open>strings.ToLower\<close> has a fast path for ASCII text, which lowers the bytes
  \<open>A\<close> to \<open>Z\<close>; any other text goes through \<^verbatim>\<open>strings.Map(unicode.ToLower, s)\<close>, whose
  table belongs to Go's runtime. The \<open>runtime\<close> record holds what the model takes
  from the runtime: that mapping, and the order in which a \<^verbatim>\<open>range\<close> statement visits
  the keyword table of the category inference (Go leaves the iteration order of a map
  unspecified).
\<close>

record runtime =
  unicodeToLower :: "string \<Rightarrow> string"
  rangeOrder :: "(string \<times> string) list \<Rightarrow> (string \<times> string) list"

definition isASCII :: "string \<Rightarrow> bool" where
  "isASCII s = list_all (\<lambda>c. (of_char c :: nat) < 128) s"

definition lowerByte :: "char \<Rightarrow> char" where
  "lowerByte c = (if 65 \<le> (of_char c :: nat) \<and> (of_char c :: nat) \<le> 90
                  then char_of ((of_char c :: nat) + 32) else c)"

definition upperByte :: "char \<Rightarrow> char" where
  "upperByte c = (if 97 \<le> (of_char c :: nat) \<and> (of_char c :: nat) \<le> 122
                  then char_of ((of_char c :: nat) - 32) else c)"

definition ToLower :: "runtime \<Rightarrow> string \<Rightarrow> string" where
  "ToLower rt s = (if isASCII s then map lowerByte s else unicodeToLower rt s)"

text \<open>\<^verbatim>\<open>strings.Join\<close>, and \<^verbatim>\<open>strings.ReplaceAll\<close> for a non-empty \<open>old\<close> (the only use
  here), which is the pieces of \<^const>\<open>Split\<close> joined by \<open>new\<close>.\<close>

fun Join :: "string list \<Rightarrow> string \<Rightarrow> string" where
  "Join [] sep = []"
| "Join [x] sep = x"
| "Join (x # y # ys) sep = x @ sep @ Join (y # ys) sep"

definition ReplaceAll :: "string \<Rightarrow> string \<Rightarrow> string \<Rightarrow> string" where
  "ReplaceAll s old new = Join (Split s old) new"

text \<open>\<^verbatim>\<open>strings.Replace(s, old, new, 1)\<close>: the first occurrence only.\<close>

definition ReplaceFirst :: "string \<Rightarrow> string \<Rightarrow> string \<Rightarrow> string" where
  "ReplaceFirst s old new =
     (if Index s old < 0 then s
      else take (nat (Index s old)) s @ new @ drop (nat (Index s old) + length old) s)"

text \<open>\<^verbatim>\<open>strings.Trim(s, cutset)\<close> for a cutset of ASCII characters.\<close>

definition Trim :: "string \<Rightarrow> string \<Rightarrow> string" where
  "Trim s cutset =
     rev (dropWhile (\<lambda>c. c \<in> set cutset) (rev (dropWhile (\<lambda>c. c \<in> set cutset) s)))"

section \<open>The regular expressions\<close>

text \<open>
  Go's \<^verbatim>\<open>regexp\<close> finds the leftmost match and, among the matches that start there,
  the one a backtracking search finds first. Each of the five patterns of the program
  is written out as the function that search computes. \<open>\s\<close> is
  \<open>[\t\n\f\r ]\<close>, \<open>\d\<close> is \<open>[0-9]\<close>, and \<open>.\<close> is any character but the newline.
\<close>

definition reSpace :: "char \<Rightarrow> bool" where
  "reSpace c = (c \<in> set [CHR 0x09, CHR 0x0A, CHR 0x0C, CHR 0x0D, CHR 0x20])"

definition reDigit :: "char \<Rightarrow> bool" where
  "reDigit c = (c \<in> set ''0123456789'')"

text \<open>\<^verbatim>\<open>(\d+\.\s+)\<close> at the head of \<open>s\<close>: the length of the match, \<open>0\<close> when there is
  none (a match has at least three bytes).\<close>

definition numberAt :: "string \<Rightarrow> nat" where
  "numberAt s =
     (let ds = takeWhile reDigit s; r = dropWhile reDigit s
      in if ds = [] then 0
         else (case r of
                 [] \<Rightarrow> 0
               | c # r' \<Rightarrow>
                   if c = CHR ''.'' \<and> takeWhile reSpace r' \<noteq> []
                   then length ds + 1 + length (takeWhile reSpace r') else 0))"

text \<open>\<^verbatim>\<open>numberRegex.MatchString\<close>.\<close>

fun numberMatchString :: "string \<Rightarrow> bool" where
  "numberMatchString [] = False"
| "numberMatchString (c # cs) = (numberAt (c # cs) \<noteq> 0 \<or> numberMatchString cs)"

text \<open>\<^verbatim>\<open>numberRegex.Split(s, -1)\<close>: the text between the matches, the text after the
  last match included.\<close>

function numberSplit :: "string \<Rightarrow> string \<Rightarrow> string list" where
  "numberSplit piece [] = [piece]"
| "numberSplit piece (c # cs) =
     (if numberAt (c # cs) \<noteq> 0 then piece # numberSplit [] (drop (numberAt (c # cs)) (c # cs))
      else numberSplit (piece @ [c]) cs)"
  by pat_completeness auto
termination
proof (relation "measure (\<lambda>(piece, s). length s)")
  show "wf (measure (\<lambda>(piece, s). length s))" by simp
next
  fix piece :: string and c cs
  assume "numberAt (c # cs) \<noteq> 0"
  then show "(([], drop (numberAt (c # cs)) (c # cs)), (piece, c # cs))
      \<in> measure (\<lambda>(piece, s). length s)"
    by simp
next
  fix piece :: string and c cs
  show "((piece @ [c], cs), (piece, c # cs)) \<in> measure (\<lambda>(piece, s). length s)"
    by simp
qed

text \<open>
  Under \<open>(?i)\<close> a letter of a pattern matches its two cases and the code points that
  fold to it: for \<open>s\<close> the long s U+017F, for \<open>k\<close> the Kelvin sign U+212A.
  \<open>foldPrefix pat s\<close> is the number of bytes of \<open>s\<close> that the literal \<open>pat\<close> matches at
  its head, if it does.
\<close>

definition folds :: "char \<Rightarrow> string list" where
  "folds c =
     (if lowerByte c = upperByte c then [[c]]
      else [[lowerByte c], [upperByte c]] @
           (if lowerByte c = CHR ''s'' then [[CHR 0xC5, CHR 0xBF]]
            else if lowerByte c = CHR ''k'' then [[CHR 0xE2, CHR 0x84, CHR 0xAA]]
            else []))"

fun foldPrefix :: "string \<Rightarrow> string \<Rightarrow> nat option" where
  "foldPrefix [] s = Some 0"
| "foldPrefix (p # ps) s =
     (case List.find (\<lambda>w. prefix w s) (folds p) of
        None \<Rightarrow> None
      | Some w \<Rightarrow> map_option (\<lambda>n. length w + n) (foldPrefix ps (drop (length w) s)))"

text \<open>
  \<^verbatim>\<open>(?i)(?:Pros|PROS|Pros:)[\s\n]*(.*?)(?:Cons|CONS|Cons:|$)\<close>.
  \<open>prosTail\<close> is \<open>(.*?)(?:Cons|CONS|Cons:|$)\<close>: the lazy group stops at the first
  place where \<open>cons\<close> starts or the text ends, and fails at a newline before that. It
  gives the length of the group and of the closing alternative. Giving back white space
  of \<open>[\s\n]*\<close> cannot turn a failure into a match, so the greedy run is final; when
  the first two alternatives fail, \<open>Pros:\<close> is tried.
\<close>

fun prosTail :: "string \<Rightarrow> (nat \<times> nat) option" where
  "prosTail [] = Some (0, 0)"
| "prosTail (c # cs) =
     (case foldPrefix ''cons'' (c # cs) of
        Some n \<Rightarrow> Some (0, n)
      | None \<Rightarrow>
          if c = CHR 0x0A then None
          else map_option (\<lambda>(k, e). (Suc k, e)) (prosTail cs))"

definition prosRest :: "string \<Rightarrow> (nat \<times> nat \<times> nat) option" where
  "prosRest r =
     (let w = length (takeWhile reSpace r)
      in map_option (\<lambda>(k, e). (w, k, e)) (prosTail (drop w r)))"

text \<open>At the head of \<open>t\<close>: the offset of the group, its length, and the length of the
  whole match.\<close>

definition prosAt :: "string \<Rightarrow> (nat \<times> nat \<times> nat) option" where
  "prosAt t =
     (case foldPrefix ''pros'' t of
        None \<Rightarrow> None
      | Some n \<Rightarrow>
          (case prosRest (drop n t) of
             Some (w, k, e) \<Rightarrow> Some (n + w, k, n + w + k + e)
           | None \<Rightarrow>
               (case drop n t of
                  [] \<Rightarrow> None
                | c # r \<Rightarrow>
                    if c = CHR '':''
                    then map_option (\<lambda>(w, k, e). (n + 1 + w, k, n + 1 + w + k + e)) (prosRest r)
                    else None)))"

text \<open>\<^verbatim>\<open>prosRegex.FindStringSubmatch\<close>: empty when nothing matches, else the whole
  match and the group.\<close>

fun prosFind :: "string \<Rightarrow> string list" where
  "prosFind [] = []"
| "prosFind (c # cs) =
     (case prosAt (c # cs) of
        Some (g, k, e) \<Rightarrow> [take e (c # cs), take k (drop g (c # cs))]
      | None \<Rightarrow> prosFind cs)"

text \<open>
  \<^verbatim>\<open>(?i)(?:Cons|CONS|Cons:)[\s\n]*([^:]*)(?:\s*Verdict:|$)\<close>.
  The greedy group runs to the first colon or to the end of the text. At the end of the
  text \<open>$\<close> closes the match. At a colon the group is given back down to the place
  where \<open>Verdict\<close> (in any case) stands right before that colon; if it does not, there
  is no match from here.
\<close>

definition consRest :: "string \<Rightarrow> (nat \<times> nat \<times> nat) option" where
  "consRest r =
     (let w = length (takeWhile reSpace r);
          u = drop w r;
          g = takeWhile (\<lambda>c. c \<noteq> CHR '':'') u
      in if length g = length u then Some (w, length g, 0)
         else if 7 \<le> length g \<and> foldPrefix ''verdict'' (drop (length g - 7) g) = Some 7
         then Some (w, length g - 7, 8)
         else None)"

definition consAt :: "string \<Rightarrow> (nat \<times> nat \<times> nat) option" where
  "consAt t =
     (case foldPrefix ''cons'' t of
        None \<Rightarrow> None
      | Some n \<Rightarrow>
          (case consRest (drop n t) of
             Some (w, k, e) \<Rightarrow> Some (n + w, k, n + w + k + e)
           | None \<Rightarrow>
               (case drop n t of
                  [] \<Rightarrow> None
                | c # r \<Rightarrow>
                    if c = CHR '':''
                    then map_option (\<lambda>(w, k, e). (n + 1 + w, k, n + 1 + w + k + e)) (consRest r)
                    else None)))"

fun consFind :: "string \<Rightarrow> string list" where
  "consFind [] = []"
| "consFind (c # cs) =
     (case consAt (c # cs) of
        Some (g, k, e) \<Rightarrow> [take e (c # cs), take k (drop g (c # cs))]
      | None \<Rightarrow> consFind cs)"

text \<open>\<^verbatim>\<open><[^>]*>\<close> replaced by nothing, and \<^verbatim>\<open>\s+\<close> replaced by one space
  (\<^verbatim>\<open>ReplaceAllString\<close>).\<close>

function stripTags :: "string \<Rightarrow> string" where
  "stripTags [] = []"
| "stripTags (c # cs) =
     (if c = CHR ''<'' \<and> CHR ''>'' \<in> set cs
      then stripTags (drop 1 (dropWhile (\<lambda>x. x \<noteq> CHR ''>'') cs))
      else c # stripTags cs)"
  by pat_completeness auto
termination
proof (relation "measure length")
  show "wf (measure length)" by simp
next
  fix c :: char and cs
  have "length (dropWhile (\<lambda>x. x \<noteq> CHR ''>'') cs) \<le> length cs"
    by (rule length_dropWhile_le)
  then show "(drop 1 (dropWhile (\<lambda>x. x \<noteq> CHR ''>'') cs), c # cs) \<in> measure length"
    by simp
next
  fix c :: char and cs
  show "(cs, c # cs) \<in> measure length" by simp
qed

function collapseSpace :: "string \<Rightarrow> string" where
  "collapseSpace [] = []"
| "collapseSpace (c # cs) =
     (if reSpace c then CHR 0x20 # collapseSpace (dropWhile reSpace cs)
      else c # collapseSpace cs)"
  by pat_completeness auto
termination
proof (relation "measure length")
  show "wf (measure length)" by simp
next
  fix c :: char and cs
  have "length (dropWhile reSpace cs) \<le> length cs"
    by (rule length_dropWhile_le)
  then show "(dropWhile reSpace cs, c # cs) \<in> measure length"
    by simp
next
  fix c :: char and cs
  show "(cs, c # cs) \<in> measure length" by simp
qed

section \<open>cleanHTML and splitByBullets\<close>

definition cleanHTML :: "string \<Rightarrow> string" where
  "cleanHTML input =
     (let withoutTags = stripTags input;
          withoutTags = ReplaceAll withoutTags ''&nbsp;'' '' '';
          withoutTags = ReplaceAll withoutTags [CHR 0x0D, CHR 0x0A] '' '';
          withoutTags = ReplaceAll withoutTags [CHR 0x0A] '' '';
          withoutTags = ReplaceAll withoutTags ''&amp;'' ''&'';
          withoutTags = ReplaceAll withoutTags ''&lt;'' ''<'';
          withoutTags = ReplaceAll withoutTags ''&gt;'' ''>'';
          withoutTags = ReplaceAll withoutTags ''&quot;'' [CHR 0x22];
          withoutTags = ReplaceAll withoutTags ''&#39;'' [CHR 0x27];
          withoutTags = ReplaceAll withoutTags ''&#34;'' [CHR 0x22];
          withoutTags = collapseSpace withoutTags
      in TrimSpace withoutTags)"

text \<open>\<^verbatim>\<open>contains(slice, str)\<close>.\<close>

fun contains :: "string list \<Rightarrow> string \<Rightarrow> bool" where
  "contains [] str = False"
| "contains (item # slice) str = (if item = str then True else contains slice str)"

text \<open>
  The bullet glyphs of \<^verbatim>\<open>splitByBullets\<close>, as the bytes of the source file: U+2022,
  \<open>-\<close>, U+2605, U+2713, U+2714, \<open>*\<close>, U+2192, U+21D2, U+27F9, U+21FE, U+27F6.
\<close>

definition bullets :: "string list" where
  "bullets =
    [[CHR 0xE2, CHR 0x80, CHR 0xA2], ''-'', [CHR 0xE2, CHR 0x98, CHR 0x85],
     [CHR 0xE2, CHR 0x9C, CHR 0x93], [CHR 0xE2, CHR 0x9C, CHR 0x94], ''*'',
     [CHR 0xE2, CHR 0x86, CHR 0x92], [CHR 0xE2, CHR 0x87, CHR 0x92],
     [CHR 0xE2, CHR 0x9F, CHR 0xB9], [CHR 0xE2, CHR 0x87, CHR 0xBE],
     [CHR 0xE2, CHR 0x9F, CHR 0xB6]]"

text \<open>The inner loop of the newline branch: the first bullet that heads the line is
  removed.\<close>

definition stripBullet :: "string \<Rightarrow> string" where
  "stripBullet line =
     (case List.find (\<lambda>bullet. HasPrefix line bullet) bullets of
        None \<Rightarrow> line
      | Some bullet \<Rightarrow> TrimSpace (TrimPrefix line bullet))"

text \<open>
  A result \<open>None\<close> stands for a run-time panic of the Go program. The one place of
  \<^verbatim>\<open>splitByBullets\<close> that can panic is the byte index \<^verbatim>\<open>part[0]\<close>, which the
  source reads only after \<^verbatim>\<open>len(part) > 20\<close>.
\<close>

definition sentenceItem :: "string \<Rightarrow> string option" where
  "sentenceItem part =
     (if 20 < length part
      then (case part of
              [] \<Rightarrow> None
            | c # _ \<Rightarrow>
                Some (if 65 \<le> (of_char c :: nat) \<and> (of_char c :: nat) \<le> 90
                      then part @ ''.'' else part))
      else Some part)"

text \<open>The cascade of \<^verbatim>\<open>splitByBullets\<close> up to the final pass: the value of
  \<^verbatim>\<open>items\<close> when the cleanup loop starts.\<close>

definition splitItems :: "string \<Rightarrow> string list option" where
  "splitItems text0 =
     (let text = TrimSpace text0;
          found = List.find (\<lambda>bullet. Contains text bullet) bullets;
          hasBullets = (found \<noteq> None);
          items =
            (case found of
               None \<Rightarrow> []
             | Some bullet \<Rightarrow> filter (\<lambda>part. part \<noteq> []) (map TrimSpace (Split text bullet)));
          items =
            (if \<not> hasBullets \<and> Contains text [CHR 0x0A]
             then items @ filter (\<lambda>line. line \<noteq> [] \<and> 2 < length line)
                           (map (\<lambda>line. stripBullet (TrimSpace line)) (Split text [CHR 0x0A]))
             else items);
          items =
            (if items = [] \<and> numberMatchString text
             then filter (\<lambda>part. part \<noteq> [] \<and> 2 < length part)
                    (map TrimSpace (numberSplit [] text))
             else items)
      in do {
           items \<leftarrow>
             (if items = [] \<and> 15 < length text \<and> (Contains text ''. '' \<or> Contains text ''; '')
              then (if 1 < length (Split text ''. '')
                    then those (map sentenceItem
                           (filter (\<lambda>part. part \<noteq> [] \<and> 10 < length part)
                              (map TrimSpace (Split text ''. ''))))
                    else Some (filter (\<lambda>part. part \<noteq> [] \<and> 5 < length part)
                           (map TrimSpace (Split text ''; ''))))
              else Some items);
           Some (if items = [] then [TrimSpace text0] else items)
         })"

text \<open>The final pass: \<open>seen\<close> is the map of the items already kept, \<open>clean\<close> the
  slice \<^verbatim>\<open>cleanItems\<close>.\<close>

fun cleanItems :: "(string \<Rightarrow> bool) \<Rightarrow> string list \<Rightarrow> string list \<Rightarrow> string list" where
  "cleanItems seen clean [] = clean"
| "cleanItems seen clean (item # items) =
     (let item = TrimSpace item
      in if item = [] \<or> length item < 3 then cleanItems seen clean items
         else if seen item then cleanItems seen clean items
         else cleanItems (seen(item := True)) (clean @ [item]) items)"

definition splitByBullets :: "string \<Rightarrow> string list option" where
  "splitByBullets text0 = map_option (cleanItems (\<lambda>_. False) []) (splitItems text0)"

section \<open>The merge step of ScrapeAll\<close>

text \<open>
  The critical section of the worker (between \<^verbatim>\<open>c.mu.Lock()\<close> and
  \<^verbatim>\<open>c.mu.Unlock()\<close>): the fetched profile is looked up by name in \<^verbatim>\<open>c.profiles\<close>
  and is inserted, or replaces the stored one, or is dropped. \<open>now\<close> is the reading of
  \<^verbatim>\<open>time.Now()\<close> that the update branch takes. The map holds pointers, and the stored
  object is never written to after it is stored, so the model keeps the records by
  value.
\<close>

datatype classification = New | Updated | Unchanged

definition mergeProfile ::
  "timestamp \<Rightarrow> profile \<Rightarrow> (string \<rightharpoonup> profile) \<Rightarrow> classification \<times> (string \<rightharpoonup> profile)" where
  "mergeProfile now p stored =
     (case stored (Name p) of
        None \<Rightarrow> (New, stored(Name p \<mapsto> p))
      | Some existingProfile \<Rightarrow>
          if Verdict existingProfile \<noteq> Verdict p \<or>
             Description existingProfile \<noteq> Description p \<or>
             length (Pros existingProfile) \<noteq> length (Pros p) \<or>
             length (Cons existingProfile) \<noteq> length (Cons p)
          then (Updated,
                stored(Name p \<mapsto> p\<lparr>CreatedAt := CreatedAt existingProfile, UpdatedAt := now\<rparr>))
          else (Unchanged, stored))"

section \<open>The document, as parseProfile reads it\<close>

text \<open>
  \<^verbatim>\<open>parseProfile\<close> reads the parsed page through goquery only: each field below is
  the result of one of its queries, in the order of the source. \<^verbatim>\<open>Text()\<close> of a
  selection is a string, \<^verbatim>\<open>Each\<close> visits the selected nodes in document order (a
  list), and \<^verbatim>\<open>Attr\<close> returns a value together with a flag saying whether the first
  selected node has the attribute (an option).
\<close>

record document =
  titleText :: string
    \<comment> \<open>\<^verbatim>\<open>doc.Find("title").Text()\<close>\<close>
  h1Texts :: "string list"
    \<comment> \<open>\<^verbatim>\<open>doc.Find("h1")\<close>: the text of each node\<close>
  metaDescription :: "string option"
    \<comment> \<open>\<^verbatim>\<open>doc.Find("meta[name=description]").Attr("content")\<close>\<close>
  verdictNodes :: "(string \<times> string option) list"
    \<comment> \<open>\<^verbatim>\<open>doc.Find("font, div, b, p")\<close>: the text of each node, and the text of its
       parent when \<^verbatim>\<open>s.Parent().Length() > 0\<close>\<close>
  verdictImage :: "string option"
    \<comment> \<open>\<^verbatim>\<open>doc.Find("img[src*='img/']").Attr("src")\<close>\<close>
  profileBody :: "string option"
    \<comment> \<open>\<^verbatim>\<open>doc.Find("div#profileBody, #profileBody").First()\<close>: its text when its
       length is positive\<close>
  descriptionNodes :: "string list"
    \<comment> \<open>\<^verbatim>\<open>doc.Find("td[valign=top] font, div.profile-description, p.description, td font")\<close>\<close>
  tableCells :: "string list"
    \<comment> \<open>\<^verbatim>\<open>doc.Find("table td")\<close>\<close>
  html :: "string option"
    \<comment> \<open>\<^verbatim>\<open>doc.Html()\<close>, \<open>None\<close> when it returns an error\<close>
  prosConsNodes :: "string list"
    \<comment> \<open>\<^verbatim>\<open>doc.Find("div, td, span, p, font")\<close>\<close>
  listItems :: "(string \<times> string) list"
    \<comment> \<open>\<^verbatim>\<open>doc.Find("li, ul li")\<close>: the text of each node and the text of
       \<^verbatim>\<open>s.ParentsFiltered("div, td, ul").First()\<close> (empty for an empty selection)\<close>
  categoryNodes :: "string list"
    \<comment> \<open>\<^verbatim>\<open>doc.Find("td font, span, div, p, strong, b, h3")\<close>\<close>
  metaKeywords :: "string option"
    \<comment> \<open>\<^verbatim>\<open>doc.Find("meta[name=keywords]").Attr("content")\<close>\<close>
  ogImage :: "string option"
    \<comment> \<open>\<^verbatim>\<open>doc.Find("meta[property='og:image']").Attr("content")\<close>\<close>
  imageSrcLink :: "string option"
    \<comment> \<open>\<^verbatim>\<open>doc.Find("link[rel='image_src']").Attr("href")\<close>\<close>
  images :: "string option list"
    \<comment> \<open>\<^verbatim>\<open>doc.Find("img")\<close>: the \<^verbatim>\<open>src\<close> attribute of each node\<close>

text \<open>
  The document goquery builds from an empty page: the HTML parser supplies the
  \<^verbatim>\<open>html\<close>, \<^verbatim>\<open>head\<close> and \<^verbatim>\<open>body\<close> elements, which have no text and no attribute, so
  every selection of \<^verbatim>\<open>parseProfile\<close> is empty and \<^verbatim>\<open>doc.Html()\<close> renders the three
  elements.
\<close>

definition emptyDocument :: document where
  "emptyDocument =
     \<lparr>titleText = [], h1Texts = [], metaDescription = None, verdictNodes = [],
      verdictImage = None, profileBody = None, descriptionNodes = [], tableCells = [],
      html = Some ''<html><head></head><body></body></html>'', prosConsNodes = [],
      listItems = [], categoryNodes = [], metaKeywords = None, ogImage = None,
      imageSrcLink = None, images = []\<rparr>"

text \<open>
  Go checks every index and every slice bound at run time and panics when it is out of
  range. \<open>index xs i\<close> is \<^verbatim>\<open>xs[i]\<close> and \<open>sliceTo s i\<close> is \<^verbatim>\<open>s[:i]\<close>; \<open>None\<close>
  is the panic. \<open>forEach\<close> runs a loop body over a list and stops at a panic.
\<close>

definition index :: "'a list \<Rightarrow> int \<Rightarrow> 'a option" where
  "index xs i = (if 0 \<le> i \<and> i < int (length xs) then Some (xs ! nat i) else None)"

definition sliceTo :: "string \<Rightarrow> int \<Rightarrow> string option" where
  "sliceTo s i = (if 0 \<le> i \<and> i \<le> int (length s) then Some (take (nat i) s) else None)"

primrec forEach :: "('s \<Rightarrow> 'a \<Rightarrow> 's option) \<Rightarrow> 'a list \<Rightarrow> 's \<Rightarrow> 's option" where
  "forEach body [] s = Some s"
| "forEach body (x # xs) s = Option.bind (body s x) (forEach body xs)"

section \<open>parseProfile: name, verdict and description\<close>

text \<open>
  The blocks of \<^verbatim>\<open>parseProfile\<close>, each a function from the profile built so far to
  the profile after the block. The \<^verbatim>\<open>verbose\<close> flag only gates \<^verbatim>\<open>fmt.Printf\<close>
  calls, which the model leaves out.
\<close>

definition extractName :: "document \<Rightarrow> profile \<Rightarrow> profile option" where
  "extractName doc profile =
     do {
       profile \<leftarrow>
         (if titleText doc \<noteq> []
          then (let parts = Split (titleText doc) '' - ''
                in if 0 < length parts
                   then do {
                     part \<leftarrow> index parts 0;
                     let name = TrimSpace part;
                     let name = TrimPrefix name ''Jew or Not Jew: '';
                     Some (profile\<lparr>Name := name\<rparr>)
                   }
                   else Some profile)
          else Some profile);
       Some (if Name profile = []
             then foldl (\<lambda>profile t. let name = TrimSpace t
                                      in if name \<noteq> [] then profile\<lparr>Name := name\<rparr> else profile)
                    profile (h1Texts doc)
             else profile)
     }"

text \<open>The verdict from the meta description (the value of \<^verbatim>\<open>verdictText\<close> after the
  first block).\<close>

definition verdictFromMeta :: "string option \<Rightarrow> string option" where
  "verdictFromMeta attr =
     (case attr of
        None \<Rightarrow> Some []
      | Some metaDesc \<Rightarrow>
          if metaDesc \<noteq> []
          then (let metaDesc = TrimSpace metaDesc
                in if Contains metaDesc ''is '' \<and> HasSuffix metaDesc ''.''
                   then (let words = Split metaDesc '' ''
                         in if 2 < length words
                            then do {
                              lastWord \<leftarrow> index words (int (length words) - 1);
                              let lastWord = TrimSuffix lastWord ''.'';
                              Some (if lastWord = ''Jew'' \<or> lastWord = ''Jewish'' then ''Jew''
                                    else if Contains lastWord ''Not'' then ''Not a Jew''
                                    else [])
                            }
                            else Some [])
                   else Some [])
          else Some [])"

text \<open>The body of the loop over \<^verbatim>\<open>font, div, b, p\<close>: \<open>verdictText\<close> before and after
  one node.\<close>

definition verdictFromNode ::
  "runtime \<Rightarrow> string \<Rightarrow> string \<times> string option \<Rightarrow> string option" where
  "verdictFromNode rt verdictText node =
     (let text = TrimSpace (fst node);
          lcText = ToLower rt text
      in if Contains lcText ''verdict:''
         then (let parts = SplitN2 text '':''
               in if 1 < length parts
                  then do {
                    part \<leftarrow> index parts 1;
                    let verdict = TrimSpace part;
                    Some (if verdict \<noteq> [] then verdict else verdictText)
                  }
                  else Some verdictText)
         else if Contains lcText ''verdict'' \<and> length text < 30
         then (case snd node of
                 None \<Rightarrow> Some verdictText
               | Some parentText \<Rightarrow>
                   (let siblingText = TrimSpace parentText;
                        siblingText = ReplaceFirst siblingText text [];
                        siblingText = TrimSpace siblingText
                    in Some (if siblingText \<noteq> [] \<and> length siblingText < 30
                             then siblingText else verdictText)))
         else if (lcText = ''jew'' \<or> lcText = ''not a jew'' \<or> lcText = ''barely a jew'')
                 \<and> length text < 30
         then Some text
         else Some verdictText)"

definition verdictFromImage :: "string option \<Rightarrow> string" where
  "verdictFromImage attr =
     (case attr of
        None \<Rightarrow> []
      | Some imageUrl \<Rightarrow>
          if imageUrl \<noteq> []
          then (if Contains imageUrl ''verified_jew'' then ''Jew''
                else if Contains imageUrl ''not_a_jew'' then ''Not a Jew''
                else [])
          else [])"

definition extractVerdict :: "runtime \<Rightarrow> document \<Rightarrow> profile \<Rightarrow> profile option" where
  "extractVerdict rt doc profile =
     do {
       verdictText \<leftarrow> verdictFromMeta (metaDescription doc);
       verdictText \<leftarrow>
         (if verdictText = [] then forEach (verdictFromNode rt) (verdictNodes doc) verdictText
          else Some verdictText);
       let verdictText =
         (if verdictText = [] then verdictFromImage (verdictImage doc) else verdictText);
       Some (if verdictText \<noteq> [] then profile\<lparr>Verdict := verdictText\<rparr> else profile)
     }"

text \<open>
  The description from the \<^verbatim>\<open>profileBody\<close> container. \<open>cutIndex\<close> is the value of the
  variable of that name when the slice is taken: the least of the length and of the
  positive ones among the last offsets of the three labels in the lowered text.
\<close>

definition cutIndex :: "runtime \<Rightarrow> string \<Rightarrow> int" where
  "cutIndex rt fullText =
     (let verdictIndex = LastIndex (ToLower rt fullText) ''verdict:'';
          prosIndex = LastIndex (ToLower rt fullText) ''pros:'';
          consIndex = LastIndex (ToLower rt fullText) ''cons:'';
          cutIndex = int (length fullText);
          cutIndex = (if 0 < verdictIndex \<and> verdictIndex < cutIndex then verdictIndex else cutIndex);
          cutIndex = (if 0 < prosIndex \<and> prosIndex < cutIndex then prosIndex else cutIndex);
          cutIndex = (if 0 < consIndex \<and> consIndex < cutIndex then consIndex else cutIndex)
      in cutIndex)"

text \<open>The text that becomes \<^verbatim>\<open>profile.Description\<close>, given the trimmed text of the
  container (longer than 50 bytes).\<close>

definition bodyDescription :: "runtime \<Rightarrow> string \<Rightarrow> string option" where
  "bodyDescription rt fullText =
     (let fullText = ReplaceAll fullText [CHR 0x0D, CHR 0x0A] [CHR 0x0A];
          fullText = ReplaceAll fullText [CHR 0x0D] [CHR 0x0A]
      in do {
           fullText \<leftarrow>
             (if cutIndex rt fullText < int (length fullText)
              then sliceTo fullText (cutIndex rt fullText)
              else Some fullText);
           Some (TrimSpace fullText)
         })"

definition descriptionFromBody :: "runtime \<Rightarrow> document \<Rightarrow> profile \<Rightarrow> profile option" where
  "descriptionFromBody rt doc profile =
     (case profileBody doc of
        None \<Rightarrow> Some profile
      | Some t \<Rightarrow>
          (let fullText = TrimSpace t
           in if 50 < length fullText
              then do {
                fullText \<leftarrow> bodyDescription rt fullText;
                Some (profile\<lparr>Description := fullText\<rparr>)
              }
              else Some profile))"

text \<open>The three fallbacks, in the order of the source: the first long block without a
  label, the meta description, the largest table cell without a label.\<close>

definition hasLabel :: "string \<Rightarrow> bool" where
  "hasLabel lowerText =
     (Contains lowerText ''verdict:'' \<or> Contains lowerText ''pros:'' \<or> Contains lowerText ''cons:'')"

definition descriptionFromNodes :: "runtime \<Rightarrow> document \<Rightarrow> profile \<Rightarrow> profile" where
  "descriptionFromNodes rt doc profile =
     (if Description profile = [] \<or> length (Description profile) < 50
      then (case List.find (\<lambda>text. \<not> hasLabel (ToLower rt text) \<and> 100 < length text)
                   (map TrimSpace (descriptionNodes doc)) of
              None \<Rightarrow> profile
            | Some text \<Rightarrow> profile\<lparr>Description := text\<rparr>)
      else profile)"

definition descriptionFromMeta :: "document \<Rightarrow> profile \<Rightarrow> profile" where
  "descriptionFromMeta doc profile =
     (if Description profile = [] \<or> length (Description profile) < 30
      then (case metaDescription doc of
              None \<Rightarrow> profile
            | Some metaDesc \<Rightarrow>
                if metaDesc \<noteq> [] \<and> 10 < length metaDesc
                then (let metaDesc =
                            (if HasPrefix metaDesc ''JewOrNotJew.com:''
                             then TrimSpace (TrimPrefix metaDesc ''JewOrNotJew.com:'')
                             else metaDesc)
                      in profile\<lparr>Description := metaDesc\<rparr>)
                else profile)
      else profile)"

definition descriptionFromTable :: "runtime \<Rightarrow> document \<Rightarrow> profile \<Rightarrow> profile" where
  "descriptionFromTable rt doc profile =
     (if Description profile = [] \<or> length (Description profile) < 100
      then (let largestText =
                  foldl (\<lambda>largestText text.
                           if \<not> hasLabel (ToLower rt text) \<and> length largestText < length text
                           then text else largestText)
                    [] (map TrimSpace (tableCells doc))
            in if 100 < length largestText then profile\<lparr>Description := largestText\<rparr>
               else profile)
      else profile)"

section \<open>parseProfile: pros and cons\<close>

text \<open>The test for residual markup that the source repeats at each place where a con
  is accepted.\<close>

definition hasMarkup :: "string \<Rightarrow> bool" where
  "hasMarkup con =
     (Contains con ''&#'' \<or> Contains con ''&lt;'' \<or> Contains con ''&gt;'' \<or> Contains con ''<span'')"

text \<open>
  The state of the pros and cons blocks is the profile with the two flags
  \<^verbatim>\<open>prosFound\<close> and \<^verbatim>\<open>consFound\<close>. First the two patterns run over the rendered
  markup.
\<close>

type_synonym prosCons = "profile \<times> bool \<times> bool"

definition prosFromRegex :: "runtime \<Rightarrow> string \<Rightarrow> prosCons \<Rightarrow> prosCons option" where
  "prosFromRegex rt htmlString st =
     (let prosMatches = prosFind htmlString
      in if 1 < length prosMatches
         then do {
           prosContent \<leftarrow> index prosMatches 1;
           pros \<leftarrow> splitByBullets prosContent;
           Some (foldl (\<lambda>(profile, prosFound, consFound) pro.
                          let pro = TrimSpace pro
                          in if pro \<noteq> [] \<and> 3 < length pro \<and> \<not> Contains (ToLower rt pro) ''cons:''
                             then (profile\<lparr>Pros := Pros profile @ [pro]\<rparr>, True, consFound)
                             else (profile, prosFound, consFound))
                   st pros)
         }
         else Some st)"

definition consFromRegex :: "string \<Rightarrow> prosCons \<Rightarrow> prosCons option" where
  "consFromRegex htmlString st =
     (let consMatches = consFind htmlString
      in if 1 < length consMatches
         then do {
           consContent \<leftarrow> index consMatches 1;
           if 10 < length consContent \<and> length consContent < 1000
           then do {
             cons \<leftarrow> splitByBullets consContent;
             Some (foldl (\<lambda>(profile, prosFound, consFound) con.
                            let con = TrimSpace con
                            in if con \<noteq> [] \<and> 10 < length con \<and> \<not> Contains con ''idered''
                               then (if \<not> hasMarkup con
                                     then (profile\<lparr>Cons := Cons profile @ [con]\<rparr>, prosFound, True)
                                     else (profile, prosFound, consFound))
                               else (profile, prosFound, consFound))
                     st cons)
           }
           else Some st
         }
         else Some st)"

text \<open>Then, when one of the flags is still unset, the loop over
  \<^verbatim>\<open>div, td, span, p, font\<close>; this is its body.\<close>

definition prosConsFromNode :: "runtime \<Rightarrow> prosCons \<Rightarrow> string \<Rightarrow> prosCons option" where
  "prosConsFromNode rt st node =
     (let text = TrimSpace node;
          lowerText = ToLower rt text
      in do {
           st \<leftarrow>
             (if \<not> fst (snd st) \<and> (Contains lowerText ''pros:'' \<or> HasPrefix lowerText ''pros'')
              then do {
                let parts = SplitN2 text '':'';
                prosList \<leftarrow> (if 1 < length parts then index parts 1
                              else Some (TrimPrefix text ''Pros''));
                pros \<leftarrow> splitByBullets prosList;
                Some (foldl (\<lambda>(profile, prosFound, consFound) pro.
                               let pro = TrimSpace pro
                               in if pro \<noteq> [] \<and> 3 < length pro \<and> \<not> Contains (ToLower rt pro) ''cons''
                                  then (profile\<lparr>Pros := Pros profile @ [pro]\<rparr>, True, consFound)
                                  else (profile, prosFound, consFound))
                        st pros)
              }
              else Some st);
           (if \<not> snd (snd st) \<and> (Contains lowerText ''cons:'' \<or> HasPrefix lowerText ''cons'')
            then do {
              let parts = SplitN2 text '':'';
              consList \<leftarrow> (if 1 < length parts then index parts 1
                            else Some (TrimPrefix text ''Cons''));
              cons \<leftarrow> splitByBullets consList;
              Some (foldl (\<lambda>(profile, prosFound, consFound) con.
                             let con = TrimSpace con
                             in if con \<noteq> [] \<and> 3 < length con
                                then (if \<not> hasMarkup con
                                      then (profile\<lparr>Cons := Cons profile @ [con]\<rparr>, prosFound, True)
                                      else (profile, prosFound, consFound))
                                else (profile, prosFound, consFound))
                      st cons)
            }
            else Some st)
         })"

text \<open>The body of the loop over \<^verbatim>\<open>li, ul li\<close>.\<close>

definition prosConsFromListItem :: "runtime \<Rightarrow> profile \<Rightarrow> string \<times> string \<Rightarrow> profile" where
  "prosConsFromListItem rt profile item =
     (let text = TrimSpace (fst item)
      in if text \<noteq> [] \<and> 3 < length text
         then (let parentText = ToLower rt (snd item)
               in if Contains parentText ''pros'' \<and> \<not> Contains (ToLower rt text) ''cons:''
                  then (if \<not> contains (Pros profile) text
                        then profile\<lparr>Pros := Pros profile @ [text]\<rparr> else profile)
                  else if Contains parentText ''cons''
                  then (if \<not> contains (Cons profile) text \<and> \<not> hasMarkup text
                        then profile\<lparr>Cons := Cons profile @ [text]\<rparr> else profile)
                  else profile)
         else profile)"

definition extractProsCons :: "runtime \<Rightarrow> document \<Rightarrow> profile \<Rightarrow> profile option" where
  "extractProsCons rt doc profile =
     do {
       st \<leftarrow>
         (case html doc of
            None \<Rightarrow> Some (profile, False, False)
          | Some htmlString \<Rightarrow>
              do {
                st \<leftarrow> prosFromRegex rt htmlString (profile, False, False);
                consFromRegex htmlString st
              });
       st \<leftarrow>
         (if \<not> fst (snd st) \<or> \<not> snd (snd st)
          then forEach (prosConsFromNode rt) (prosConsNodes doc) st
          else Some st);
       Some (foldl (prosConsFromListItem rt) (fst st) (listItems doc))
     }"

section \<open>parseProfile: category and image\<close>

text \<open>The body of the loop over \<^verbatim>\<open>td font, span, div, p, strong, b, h3\<close>.\<close>

definition categoryFromNode :: "profile \<Rightarrow> string \<Rightarrow> profile option" where
  "categoryFromNode profile node =
     (let text = TrimSpace node
      in if Contains text ''Category:''
         then (let parts = SplitN2 text ''Category:''
               in if 1 < length parts
                  then do {
                    part \<leftarrow> index parts 1;
                    let category = TrimSpace part;
                    let category = cleanHTML category;
                    let category = Trim category ''.'';
                    Some (if category \<noteq> [] then profile\<lparr>Category := category\<rparr> else profile)
                  }
                  else Some profile)
         else if HasPrefix text ''Category''
         then (let parts = SplitN2 text '' ''
               in if 1 < length parts
                  then do {
                    part \<leftarrow> index parts 1;
                    let category = TrimSpace part;
                    let category = cleanHTML category;
                    let category = Trim category ''.'';
                    Some (if category \<noteq> [] then profile\<lparr>Category := category\<rparr> else profile)
                  }
                  else Some profile)
         else Some profile)"

definition categories :: "string list" where
  "categories =
    [''Actor'', ''Actress'', ''Entertainment'', ''Politics'', ''Sports'', ''Music'',
     ''Science'', ''Business'', ''Religion'', ''History'', ''Art'', ''Literature'', ''Media'',
     ''Academia'', ''Military'', ''Fashion'', ''Technology'', ''Comedy'', ''Royalty'', ''Film'',
     ''Television'']"

text \<open>The map \<^verbatim>\<open>categoryClues\<close>, in the order of the source text; the loop visits it
  in the order the runtime chooses.\<close>

definition categoryClues :: "(string \<times> string) list" where
  "categoryClues =
    [(''actor'', ''Entertainment''), (''actress'', ''Entertainment''),
     (''movie'', ''Entertainment''), (''film'', ''Entertainment''),
     (''directed'', ''Entertainment''), (''singer'', ''Music''), (''musician'', ''Music''),
     (''album'', ''Music''), (''song'', ''Music''), (''band'', ''Music''),
     (''political'', ''Politics''), (''politician'', ''Politics''),
     (''president'', ''Politics''), (''senator'', ''Politics''),
     (''parliament'', ''Politics''), (''scientist'', ''Science''),
     (''researcher'', ''Science''), (''professor'', ''Academia''),
     (''author'', ''Literature''), (''writer'', ''Literature''), (''book'', ''Literature''),
     (''athlete'', ''Sports''), (''player'', ''Sports''), (''baseball'', ''Sports''),
     (''football'', ''Sports''), (''basketball'', ''Sports''), (''soccer'', ''Sports''),
     (''tennis'', ''Sports''), (''religious'', ''Religion''), (''rabbi'', ''Religion''),
     (''priest'', ''Religion''), (''businessman'', ''Business''),
     (''entrepreneur'', ''Business''), (''company'', ''Business''), (''CEO'', ''Business''),
     (''comedian'', ''Comedy''), (''comedy'', ''Comedy'')]"

text \<open>
  The inference of a missing category. The loop over the keywords leaves at the first
  keyword for which the inner loop has set a category; the guard on
  \<open>Category profile\<close> is that \<^verbatim>\<open>break\<close>.
\<close>

definition inferCategory :: "runtime \<Rightarrow> document \<Rightarrow> profile \<Rightarrow> profile" where
  "inferCategory rt doc profile =
     (if Category profile = []
      then (let profile =
                  (case metaKeywords doc of
                     None \<Rightarrow> profile
                   | Some keywords \<Rightarrow>
                       if keywords \<noteq> []
                       then foldl (\<lambda>profile keyword.
                                     if Category profile \<noteq> [] then profile
                                     else (case List.find
                                                  (\<lambda>cat. Contains (ToLower rt (TrimSpace keyword))
                                                                  (ToLower rt cat))
                                                  categories of
                                             None \<Rightarrow> profile
                                           | Some cat \<Rightarrow> profile\<lparr>Category := cat\<rparr>))
                              profile (Split keywords '','')
                       else profile)
            in if Category profile = [] \<and> Description profile \<noteq> []
               then (case List.find (\<lambda>(clue, category).
                                       Contains (ToLower rt (Description profile)) clue)
                            (rangeOrder rt categoryClues) of
                       None \<Rightarrow> profile
                     | Some (clue, category) \<Rightarrow> profile\<lparr>Category := category\<rparr>)
               else profile)
      else profile)"

definition extractCategory :: "runtime \<Rightarrow> document \<Rightarrow> profile \<Rightarrow> profile option" where
  "extractCategory rt doc profile =
     do {
       profile \<leftarrow> forEach categoryFromNode (categoryNodes doc) profile;
       Some (inferCategory rt doc profile)
     }"

text \<open>The prefix rule that makes an image reference absolute; the source writes it
  three times.\<close>

definition absoluteURL :: "string \<Rightarrow> string \<Rightarrow> string" where
  "absoluteURL baseURL src =
     (if \<not> HasPrefix src ''http''
      then (if \<not> HasPrefix src ''/'' then baseURL @ ''/'' @ src else baseURL @ src)
      else src)"

definition extractImage :: "string \<Rightarrow> runtime \<Rightarrow> document \<Rightarrow> profile \<Rightarrow> profile" where
  "extractImage baseURL rt doc profile =
     (let profile =
            (case ogImage doc of
               None \<Rightarrow> profile
             | Some content \<Rightarrow>
                 if content \<noteq> [] then profile\<lparr>ImageURL := absoluteURL baseURL content\<rparr>
                 else profile);
          profile =
            (if ImageURL profile = []
             then (case imageSrcLink doc of
                     None \<Rightarrow> profile
                   | Some imageSrc \<Rightarrow>
                       if imageSrc \<noteq> [] then profile\<lparr>ImageURL := absoluteURL baseURL imageSrc\<rparr>
                       else profile)
             else profile)
      in if ImageURL profile = []
         then foldl (\<lambda>profile attr.
                       if ImageURL profile \<noteq> [] then profile
                       else (case attr of
                               None \<Rightarrow> profile
                             | Some src \<Rightarrow>
                                 if src \<noteq> [] \<and>
                                    (Contains (ToLower rt src) ''people'' \<or>
                                     Contains (ToLower rt src) ''img'' \<or>
                                     Contains (ToLower rt src) ''images'')
                                 then profile\<lparr>ImageURL := absoluteURL baseURL src\<rparr>
                                 else profile))
                profile (images doc)
         else profile)"

section \<open>parseProfile and scrapeProfile\<close>

definition parseProfile :: "string \<Rightarrow> runtime \<Rightarrow> document \<Rightarrow> profile \<Rightarrow> profile option" where
  "parseProfile baseURL rt doc profile =
     do {
       profile \<leftarrow> extractName doc profile;
       profile \<leftarrow> extractVerdict rt doc profile;
       profile \<leftarrow> descriptionFromBody rt doc profile;
       let profile = descriptionFromNodes rt doc profile;
       let profile = descriptionFromMeta doc profile;
       let profile = descriptionFromTable rt doc profile;
       profile \<leftarrow> extractProsCons rt doc profile;
       profile \<leftarrow> extractCategory rt doc profile;
       Some (extractImage baseURL rt doc profile)
     }"

text \<open>\<^verbatim>\<open>%d\<close> of \<^verbatim>\<open>fmt.Sprintf\<close>: the decimal digits, with a minus sign for a negative
  number.\<close>

function decimal :: "nat \<Rightarrow> string" where
  "decimal n = (if n < 10 then [char_of (48 + n)]
                else decimal (n div 10) @ [char_of (48 + n mod 10)])"
  by pat_completeness auto
termination
  by (relation "measure id") auto

declare decimal.simps [simp del]

definition itoa :: "int \<Rightarrow> string" where
  "itoa i = (if i < 0 then ''-'' @ decimal (nat (- i)) else decimal (nat i))"

text \<open>
  What the network gives \<^verbatim>\<open>scrapeProfile\<close>: \<^verbatim>\<open>httpClient.Get\<close> fails, or answers
  with a status code and a body; reading the body fails, or goquery fails to parse it,
  or there is a document. The errors are the four \<^verbatim>\<open>fmt.Errorf\<close> returns.
\<close>

datatype body = BodyUnreadable | BodyUnparsable | Body document

datatype response = GetFailed | Response int body

datatype error = RetrieveFailed | Non200 int | ReadFailed | ParseFailed

text \<open>
  \<open>now\<close> is the reading of \<^verbatim>\<open>time.Now()\<close> at the end of \<^verbatim>\<open>scrapeProfile\<close>. The
  result is \<open>None\<close> for a panic, \<open>Some (Inl e)\<close> for a returned error and
  \<open>Some (Inr profile)\<close> for a returned profile. The seed profile has Go's zero value
  in every field but \<^verbatim>\<open>URL\<close> and \<^verbatim>\<open>Score\<close>; the zero of a timestamp is written
  \<open>0\<close>.
\<close>

definition scrapeProfile ::
  "string \<Rightarrow> runtime \<Rightarrow> int \<Rightarrow> response \<Rightarrow> timestamp \<Rightarrow> (error + profile) option" where
  "scrapeProfile baseURL rt ident resp now =
     (let profileURL = baseURL @ ''/profile.jsp?ID='' @ itoa ident
      in case resp of
           GetFailed \<Rightarrow> Some (Inl RetrieveFailed)
         | Response statusCode b \<Rightarrow>
             if statusCode \<noteq> 200 then Some (Inl (Non200 statusCode))
             else (case b of
                     BodyUnreadable \<Rightarrow> Some (Inl ReadFailed)
                   | BodyUnparsable \<Rightarrow> Some (Inl ParseFailed)
                   | Body doc \<Rightarrow>
                       do {
                         let profile = \<lparr>Name = [], URL = profileURL, Verdict = [],
                           Description = [], Pros = [], Cons = [], Score = of_int ident,
                           Category = [], ImageURL = [], CreatedAt = 0, UpdatedAt = 0\<rparr>;
                         profile \<leftarrow> parseProfile baseURL rt doc profile;
                         let profile =
                           (if Name profile = [] then profile\<lparr>Name := ''Profile '' @ itoa ident\<rparr>
                            else profile);
                         let profile = profile\<lparr>CreatedAt := now\<rparr>;
                         let profile = profile\<lparr>UpdatedAt := now\<rparr>;
                         Some (Inr profile)
                       }))"

section \<open>ScrapeAll: the dispatch loop and its workers\<close>

text \<open>
  \<^verbatim>\<open>ScrapeAll\<close> runs one dispatching loop and, for every identifier it dispatches, one
  goroutine. They share the record set (under the mutex), the atomic counters and the
  semaphore channel. The model is the interleaving of their atomic actions:

  \<^item> \<open>Check\<close>: the loop tests \<^verbatim>\<open>id <= maxID\<close> and reads \<^verbatim>\<open>successCounter\<close>. It leaves
    the loop, or goes on to wait for the throttle tick and a semaphore slot.
  \<^item> \<open>Dispatch\<close>: the wait is over; the loop puts a token into the semaphore, starts
    the goroutine for \<^verbatim>\<open>id\<close> and increments \<^verbatim>\<open>id\<close>.
  \<^item> \<open>Fetched i rt resp now\<close>: \<^verbatim>\<open>scrapeProfile(i)\<close> returns in goroutine \<open>i\<close>, and
    the goroutine counts a failure, a skip or a success.
  \<^item> \<open>Merge i now\<close>: goroutine \<open>i\<close> runs its critical section.
  \<^item> \<open>Count i\<close>: goroutine \<open>i\<close> counts its classification and exits, which frees
    its semaphore slot.

  The progress bar, the log file and the JSON files are written but never read by these
  actions, and are left out. The counters are \<^verbatim>\<open>int64\<close>; a run adds at most
  \<open>maxID\<close> to each, so they are integers here.
\<close>

definition maxID :: int where
  "maxID = 10000"

definition totalProfiles :: int where
  "totalProfiles = 3622"

definition concurrentRequests :: nat where
  "concurrentRequests = 10"

datatype worker = Fetching | Merging profile | Counting classification

datatype dispatcher = AtCheck | Admitted | Finished

record scraper =
  profiles :: "string \<rightharpoonup> profile"
  successCounter :: int
  failCounter :: int
  skipCounter :: int
  newCounter :: int
  updatedCounter :: int
  skippedCounter :: int
  nextID :: int
  dispatcher :: dispatcher
  semaphore :: nat
  workers :: "int \<rightharpoonup> worker"

datatype event =
    Check
  | Dispatch
  | Fetched int runtime response timestamp
  | Merge int timestamp
  | Count int

text \<open>The state when the loop starts: \<open>loaded\<close> is \<^verbatim>\<open>c.profiles\<close> at that point (in
  incremental mode, what \<^verbatim>\<open>LoadFromDisk\<close> has read).\<close>

definition start :: "(string \<rightharpoonup> profile) \<Rightarrow> scraper" where
  "start loaded =
     \<lparr>profiles = loaded, successCounter = 0, failCounter = 0, skipCounter = 0,
      newCounter = 0, updatedCounter = 0, skippedCounter = 0, nextID = 1,
      dispatcher = AtCheck, semaphore = 0, workers = Map.empty\<rparr>"

text \<open>The deferred function of a goroutine: the semaphore slot is freed.\<close>

definition exit :: "int \<Rightarrow> scraper \<Rightarrow> scraper" where
  "exit i s = s\<lparr>workers := (workers s)(i := None), semaphore := semaphore s - 1\<rparr>"

text \<open>One action; \<open>None\<close> when the action cannot happen in this state, or when
  \<^verbatim>\<open>scrapeProfile\<close> panics.\<close>

fun step :: "string \<Rightarrow> event \<Rightarrow> scraper \<Rightarrow> scraper option" where
  "step baseURL Check s =
     (if dispatcher s = AtCheck
      then Some (if nextID s \<le> maxID
                 then (if successCounter s \<ge> totalProfiles then s\<lparr>dispatcher := Finished\<rparr>
                       else s\<lparr>dispatcher := Admitted\<rparr>)
                 else s\<lparr>dispatcher := Finished\<rparr>)
      else None)"
| "step baseURL Dispatch s =
     (if dispatcher s = Admitted \<and> semaphore s < concurrentRequests
      then Some (s\<lparr>semaphore := semaphore s + 1,
                   workers := (workers s)(nextID s \<mapsto> Fetching),
                   nextID := nextID s + 1,
                   dispatcher := AtCheck\<rparr>)
      else None)"
| "step baseURL (Fetched i rt resp now) s =
     (case workers s i of
        Some Fetching \<Rightarrow>
          (case scrapeProfile baseURL rt i resp now of
             None \<Rightarrow> None
           | Some (Inl err) \<Rightarrow> Some (exit i (s\<lparr>failCounter := failCounter s + 1\<rparr>))
           | Some (Inr profile) \<Rightarrow>
               if Name profile = [] \<or> Name profile = ''Profile '' @ itoa i
               then Some (exit i (s\<lparr>skipCounter := skipCounter s + 1\<rparr>))
               else Some (s\<lparr>successCounter := successCounter s + 1,
                            workers := (workers s)(i \<mapsto> Merging profile)\<rparr>))
      | _ \<Rightarrow> None)"
| "step baseURL (Merge i now) s =
     (case workers s i of
        Some (Merging profile) \<Rightarrow>
          Some (s\<lparr>profiles := snd (mergeProfile now profile (profiles s)),
                  workers := (workers s)(i \<mapsto> Counting (fst (mergeProfile now profile (profiles s))))\<rparr>)
      | _ \<Rightarrow> None)"
| "step baseURL (Count i) s =
     (case workers s i of
        Some (Counting c) \<Rightarrow>
          Some (exit i (case c of
                          New \<Rightarrow> s\<lparr>newCounter := newCounter s + 1\<rparr>
                        | Updated \<Rightarrow> s\<lparr>updatedCounter := updatedCounter s + 1\<rparr>
                        | Unchanged \<Rightarrow> s\<lparr>skippedCounter := skippedCounter s + 1\<rparr>))
      | _ \<Rightarrow> None)"

text \<open>A run: the actions of a schedule, one after the other.\<close>

fun run :: "string \<Rightarrow> event list \<Rightarrow> scraper \<Rightarrow> scraper option" where
  "run baseURL [] s = Some s"
| "run baseURL (e # es) s = Option.bind (step baseURL e s) (run baseURL es)"

section \<open>Notions that the statements use\<close>

text \<open>The items of a list in the order of their first appearance, each once.\<close>

fun firstSeen :: "'a list \<Rightarrow> 'a list" where
  "firstSeen [] = []"
| "firstSeen (x # xs) = x # firstSeen (filter (\<lambda>y. y \<noteq> x) xs)"

text \<open>\<open>returns P r\<close>: the computation \<open>r\<close> does not panic and its value satisfies
  \<open>P\<close>. The rules below follow the structure of a computation.\<close>

definition returns :: "('a \<Rightarrow> bool) \<Rightarrow> 'a option \<Rightarrow> bool" where
  "returns P r = (case r of None \<Rightarrow> False | Some x \<Rightarrow> P x)"

text \<open>\<open>seedKept p q\<close>: the two fields that \<^verbatim>\<open>scrapeProfile\<close> sets in the seed
  profile have in \<open>q\<close> the value they have in \<open>p\<close>.\<close>

definition seedKept :: "profile \<Rightarrow> profile \<Rightarrow> bool" where
  "seedKept p q \<longleftrightarrow> Score q = Score p \<and> URL q = URL p"

text \<open>
  The number of characters of a UTF-8 text: its bytes that are not continuation bytes
  (\<open>0x80\<close> to \<open>0xBF\<close>). Go's \<^verbatim>\<open>len\<close> is the number of bytes, \<^const>\<open>length\<close>.
\<close>

definition runeCount :: "string \<Rightarrow> nat" where
  "runeCount s =
     length (filter (\<lambda>c. \<not> (128 \<le> (of_char c :: nat) \<and> (of_char c :: nat) < 192)) s)"

text \<open>
  \<open>labelAt l t i\<close>: the lower-case label \<open>l\<close> stands at the byte offset \<open>i\<close> of
  \<open>t\<close>, its ASCII letters in either case.

  \<open>lowersInPlace rt t\<close>: \<^verbatim>\<open>strings.ToLower\<close> keeps every byte offset of \<open>t\<close>: it
  lowers each ASCII byte where it stands and puts a byte that is not ASCII in the
  place of each other byte. All ASCII text is such, and so is well-formed text whose
  characters each lower to one of as many bytes.
\<close>

definition labelAt :: "string \<Rightarrow> string \<Rightarrow> nat \<Rightarrow> bool" where
  "labelAt l t i \<longleftrightarrow> i \<le> length t \<and> prefix l (map lowerByte (drop i t))"

definition lowersInPlace :: "runtime \<Rightarrow> string \<Rightarrow> bool" where
  "lowersInPlace rt t \<longleftrightarrow>
     list_all2 (\<lambda>c d. if (of_char c :: nat) < 128 then d = lowerByte c
                      else \<not> (of_char d :: nat) < 128)
       t (ToLower rt t)"

text \<open>
  The clock reading that an action takes, if it takes one, and the schedules whose
  readings never go back: \<open>ticking t evs\<close> says so for the readings of \<open>evs\<close>,
  starting at \<open>t\<close>.
\<close>

fun clock :: "event \<Rightarrow> timestamp option" where
  "clock (Fetched i rt resp now) = Some now"
| "clock (Merge i now) = Some now"
| "clock e = None"

fun ticking :: "timestamp \<Rightarrow> event list \<Rightarrow> bool" where
  "ticking t [] = True"
| "ticking t (e # es) =
     (case clock e of None \<Rightarrow> ticking t es | Some t' \<Rightarrow> t \<le> t' \<and> ticking t' es)"

text \<open>\<open>timely t s\<close>: every record of the record set, and every fetched record that
  waits for its merge, was created no later than it was updated and no later than
  \<open>t\<close>.\<close>

definition timely :: "timestamp \<Rightarrow> scraper \<Rightarrow> bool" where
  "timely t s \<longleftrightarrow>
     (\<forall>n p. profiles s n = Some p \<longrightarrow> CreatedAt p \<le> UpdatedAt p \<and> CreatedAt p \<le> t) \<and>
     (\<forall>i p. workers s i = Some (Merging p) \<longrightarrow> CreatedAt p \<le> UpdatedAt p \<and> CreatedAt p \<le> t)"

text \<open>
  The goroutines that have counted their success and not yet their classification, and
  the bookkeeping of the counters: \<^verbatim>\<open>successCounter\<close> is the sum of the three
  classification counters and the number of these goroutines.
\<close>

definition pending :: "scraper \<Rightarrow> int set" where
  "pending s = {i. \<exists>w. workers s i = Some w \<and> w \<noteq> Fetching}"

definition counted :: "scraper \<Rightarrow> bool" where
  "counted s \<longleftrightarrow>
     1 \<le> nextID s \<and>
     (\<forall>i. workers s i \<noteq> None \<longrightarrow> 1 \<le> i \<and> i < nextID s) \<and>
     0 \<le> newCounter s \<and> 0 \<le> updatedCounter s \<and> 0 \<le> skippedCounter s \<and>
     successCounter s =
       newCounter s + updatedCounter s + skippedCounter s + int (card (pending s))"

text \<open>The dispatches that the loop may still make without a further check.\<close>

definition admitted :: "scraper \<Rightarrow> nat" where
  "admitted s = (if dispatcher s = Admitted then 1 else 0)"

section \<open>Example data\<close>

definition bulletGlyph :: string where
  "bulletGlyph = [CHR 0xE2, CHR 0x80, CHR 0xA2]"

text \<open>A runtime whose \<^verbatim>\<open>range\<close> visits the keyword table in the order of the source
  text; the examples are ASCII, so its Unicode mapping is never consulted.\<close>

definition sampleRuntime :: runtime where
  "sampleRuntime = \<lparr>unicodeToLower = (\<lambda>s. s), rangeOrder = (\<lambda>table. table)\<rparr>"

text \<open>Two pages for the same name: a title and a meta description, and a body without
  text.\<close>

definition annPage :: "string \<Rightarrow> document" where
  "annPage metaDesc =
     emptyDocument
       \<lparr>titleText := ''Jew or Not Jew: Ann - JewOrNotJew.com'',
        metaDescription := Some metaDesc,
        html := Some (''<html><head><title>Jew or Not Jew: Ann - JewOrNotJew.com</title>'' @
                      ''<meta name='' @ [CHR 0x22] @ ''description'' @ [CHR 0x22] @
                      '' content='' @ [CHR 0x22] @ metaDesc @ [CHR 0x22] @
                      ''/></head><body></body></html>'')\<rparr>"

text \<open>Two body texts: the one of the specification's scenario, and one in which the
  label \<open>Pros:\<close> stands twice.\<close>

definition scenarioBody :: string where
  "scenarioBody =
     ''Test Person was notable. Pros: Did good things Cons: Did bad things Verdict: Jew''"

definition twiceBody :: string where
  "twiceBody = ''Test Person was notable for many things. Pros: kind Cons: rude Pros: funny''"

text \<open>
  A body text that begins with five letters U+023A (bytes \<open>C8 BA\<close>), and a runtime
  that lowers that letter to U+2C65 (bytes \<open>E2 B1 A5\<close>), as the table of
  \<^verbatim>\<open>unicode.ToLower\<close> does, and the ASCII letters.
\<close>

fun lowerStroke :: "string \<Rightarrow> string" where
  "lowerStroke (c # d # cs) =
     (if c = CHR 0xC8 \<and> d = CHR 0xBA then CHR 0xE2 # CHR 0xB1 # CHR 0xA5 # lowerStroke cs
      else lowerByte c # lowerStroke (d # cs))"
| "lowerStroke cs = map lowerByte cs"

definition strokeRuntime :: runtime where
  "strokeRuntime = \<lparr>unicodeToLower = lowerStroke, rangeOrder = (\<lambda>table. table)\<rparr>"

definition strokeBody :: string where
  "strokeBody = concat (replicate 5 [CHR 0xC8, CHR 0xBA]) @
     '' was notable for a great many things. Pros: kind Cons: rude''"

definition annStored :: profile where
  "annStored = \<lparr>Name = ''Ann'', URL = ''http://jewornotjew.com/profile.jsp?ID=7'',
     Verdict = ''Jew'', Description = ''Ann sings.'', Pros = [''Sings well''], Cons = [],
     Score = 7, Category = ''Music'', ImageURL = [], CreatedAt = 100, UpdatedAt = 100\<rparr>"

definition annFetched :: profile where
  "annFetched = \<lparr>Name = ''Ann'', URL = ''http://jewornotjew.com/profile.jsp?ID=7'',
     Verdict = ''Not a Jew'', Description = ''Ann sings.'', Pros = [''Sings well''], Cons = [],
     Score = 7, Category = ''Music'', ImageURL = [], CreatedAt = 250, UpdatedAt = 250\<rparr>"

text \<open>A schedule that fetches the page of Ann once more, for identifier 1, and merges
  it.\<close>

definition annRefetch :: "timestamp \<Rightarrow> timestamp \<Rightarrow> event list" where
  "annRefetch fetched merged =
     [Check, Dispatch,
      Fetched 1 sampleRuntime (Response 200 (Body (annPage ''Ann is Not.''))) fetched,
      Merge 1 merged, Count 1]"

text \<open>
  A schedule that harvests the identifiers \<open>1\<close> to \<open>n\<close> one after the other: each
  page is a page of Ann, with the two verdicts in turn, so the first fetch is new and
  every later one is an update. \<open>afterHarvest baseURL n\<close> is the state it leads to.
\<close>

definition pageOf :: "int \<Rightarrow> document" where
  "pageOf i = annPage (if even i then ''Ann is Not.'' else ''Ann is a Jew.'')"

definition harvestOne :: "int \<Rightarrow> event list" where
  "harvestOne i =
     [Check, Dispatch, Fetched i sampleRuntime (Response 200 (Body (pageOf i))) (nat i),
      Merge i (nat i), Count i]"

definition harvestUpTo :: "int \<Rightarrow> event list" where
  "harvestUpTo n = concat (map harvestOne [1..n])"

definition annAfter :: "string \<Rightarrow> int \<Rightarrow> profile" where
  "annAfter baseURL n =
     \<lparr>Name = ''Ann'', URL = baseURL @ ''/profile.jsp?ID='' @ itoa n,
      Verdict = (if even n then ''Not a Jew'' else ''Jew''),
      Description = (if even n then ''Ann is Not.'' else ''Ann is a Jew.''),
      Pros = [], Cons = [], Score = of_int n, Category = [], ImageURL = [],
      CreatedAt = 1, UpdatedAt = nat n\<rparr>"

definition afterHarvest :: "string \<Rightarrow> int \<Rightarrow> scraper" where
  "afterHarvest baseURL n =
     \<lparr>profiles = [''Ann'' \<mapsto> annAfter baseURL n], successCounter = n, failCounter = 0,
      skipCounter = 0, newCounter = 1, updatedCounter = n - 1, skippedCounter = 0,
      nextID = n + 1, dispatcher = AtCheck, semaphore = 0, workers = Map.empty\<rparr>"

text \<open>
  A schedule in which the loop has passed its check for identifier 3623 (the count of
  successes is 3621) while the goroutine of identifier 3622 is still at work; then that
  goroutine finishes.
\<close>

definition raceSchedule :: "event list" where
  "raceSchedule =
     harvestUpTo 3621 @
     [Check, Dispatch, Check,
      Fetched 3622 sampleRuntime (Response 200 (Body (pageOf 3622))) 3622,
      Merge 3622 3622, Count 3622]"

section \<open>Properties of the list splitter\<close>

lemma set_firstSeen: "set (firstSeen xs) = set xs"
  by (induction xs rule: firstSeen.induct) auto

lemma distinct_firstSeen: "distinct (firstSeen xs)"
  by (induction xs rule: firstSeen.induct) (auto simp: set_firstSeen)

lemma cleanItems_firstSeen:
  "cleanItems seen clean items =
     clean @ firstSeen (filter (\<lambda>x. 3 \<le> length x \<and> \<not> seen x) (map TrimSpace items))"
proof (induction items arbitrary: seen clean)
  case Nil
  then show ?case by simp
next
  case (Cons item items)
  let ?t = "TrimSpace item"
  show ?case
  proof (cases "3 \<le> length ?t \<and> \<not> seen ?t")
    case False
    then show ?thesis by (auto simp: Cons.IH Let_def)
  next
    case True
    have eq: "(\<lambda>x. 3 \<le> length x \<and> \<not> (seen(?t := True)) x)
      = (\<lambda>x. (3 \<le> length x \<and> \<not> seen x) \<and> x \<noteq> ?t)"
      by auto
    have "cleanItems seen clean (item # items)
        = cleanItems (seen(?t := True)) (clean @ [?t]) items"
      using True by (auto simp: Let_def)
    also have "\<dots> = (clean @ [?t]) @ firstSeen (filter
        (\<lambda>x. (3 \<le> length x \<and> \<not> seen x) \<and> x \<noteq> ?t) (map TrimSpace items))"
      by (simp only: Cons.IH eq)
    also have "\<dots> = clean @ firstSeen (filter (\<lambda>x. 3 \<le> length x \<and> \<not> seen x)
        (map TrimSpace (item # items)))"
      using True by (simp flip: filter_filter)
    finally show ?thesis .
  qed
qed

lemma sentenceItem_total: "\<exists>y. sentenceItem part = Some y"
  by (cases part) (auto simp: sentenceItem_def)

lemma those_total: "(\<And>x. \<exists>y. f x = Some y) \<Longrightarrow> \<exists>ys. those (map f xs) = Some ys"
proof (induction xs)
  case Nil
  then show ?case by simp
next
  case (Cons x xs)
  from Cons.prems obtain y where "f x = Some y" by blast
  moreover from Cons obtain ys where "those (map f xs) = Some ys" by blast
  ultimately show ?case by simp
qed

lemma splitItems_total: "\<exists>items. splitItems text0 = Some items"
proof -
  obtain ys where ys: "those (map sentenceItem
      (filter (\<lambda>part. part \<noteq> [] \<and> 10 < length part)
         (map TrimSpace (Split (TrimSpace text0) ''. '')))) = Some ys"
    using those_total [of sentenceItem, OF sentenceItem_total] by blast
  show ?thesis
    unfolding splitItems_def Let_def by (simp add: ys)
qed

lemma runeCount_ASCII: "isASCII s \<Longrightarrow> runeCount s = length s"
  unfolding runeCount_def isASCII_def by (induction s) simp_all

text \<open>
  C8, as the specification states it, fails on items with characters of several bytes:
  the final pass measures an item with \<^verbatim>\<open>len\<close>, in bytes. The text that is one bullet
  glyph comes back as the one item of 1 character (3 bytes), and a text of two letters
  U+00E9 as the one item of 2 characters (4 bytes).
\<close>

theorem splitByBullets_short_item_counterexample:
  "splitByBullets bulletGlyph = Some [bulletGlyph] \<and>
   length bulletGlyph = 3 \<and> runeCount bulletGlyph = 1 \<and>
   splitByBullets [CHR 0xC3, CHR 0xA9, CHR 0xC3, CHR 0xA9]
     = Some [[CHR 0xC3, CHR 0xA9, CHR 0xC3, CHR 0xA9]] \<and>
   length [CHR 0xC3, CHR 0xA9, CHR 0xC3, CHR 0xA9] = 4 \<and>
   runeCount [CHR 0xC3, CHR 0xA9, CHR 0xC3, CHR 0xA9] = 2"
  by code_simp

text \<open>
  C8, amended. For every input text \<^verbatim>\<open>splitByBullets\<close> returns (it does not panic), and
  its result has no item shorter than 3 bytes, hence no ASCII item shorter than 3
  characters, has no item twice, and is the pieces of the cascade, each trimmed, those
  shorter than 3 bytes left out, in the order of their first appearance.
\<close>

theorem splitByBullets_final_pass:
  "\<exists>items out. splitItems text0 = Some items \<and> splitByBullets text0 = Some out \<and>
     (\<forall>item \<in> set out. 3 \<le> length item \<and> (isASCII item \<longrightarrow> 3 \<le> runeCount item)) \<and>
     distinct out \<and>
     out = firstSeen (filter (\<lambda>x. 3 \<le> length x) (map TrimSpace items))"
proof -
  obtain items where items: "splitItems text0 = Some items"
    using splitItems_total by blast
  let ?out = "firstSeen (filter (\<lambda>x. 3 \<le> length x) (map TrimSpace items))"
  have out: "splitByBullets text0 = Some ?out"
    by (simp add: splitByBullets_def items cleanItems_firstSeen)
  have "\<forall>item \<in> set ?out. 3 \<le> length item \<and> (isASCII item \<longrightarrow> 3 \<le> runeCount item)"
    by (simp add: set_firstSeen runeCount_ASCII)
  with items out show ?thesis
    using distinct_firstSeen [of "filter (\<lambda>x. 3 \<le> length x) (map TrimSpace items)"]
    by blast
qed

theorem splitByBullets_final_pass_witness:
  "splitByBullets (''Xen '' @ bulletGlyph @ '' Xen '' @ bulletGlyph @ '' Yak '' @ bulletGlyph @ '' Zo'')
     = Some [''Xen'', ''Yak''] \<and>
   splitItems (''Xen '' @ bulletGlyph @ '' Xen '' @ bulletGlyph @ '' Yak '' @ bulletGlyph @ '' Zo'')
     = Some [''Xen'', ''Xen'', ''Yak'', ''Zo''] \<and>
   distinct [''Xen'', ''Yak''] \<and> 3 \<le> length ''Xen'' \<and> 3 \<le> length ''Yak''"
proof -
  let ?x = "''Xen '' @ bulletGlyph @ '' Xen '' @ bulletGlyph @ '' Yak '' @ bulletGlyph @ '' Zo''"
  have a: "splitItems ?x = Some [''Xen'', ''Xen'', ''Yak'', ''Zo'']"
    by code_simp
  have b: "splitByBullets ?x = Some [''Xen'', ''Yak'']"
    by code_simp
  from splitByBullets_final_pass [of ?x]
  obtain out where "splitByBullets ?x = Some out" and "distinct out"
      and "\<forall>item \<in> set out. 3 \<le> length item"
    by blast
  with b have "distinct [''Xen'', ''Yak'']"
      and "\<forall>item \<in> set [''Xen'', ''Yak'']. 3 \<le> length item"
    by simp_all
  with a b show ?thesis by simp
qed

text \<open>
  C3, as the specification states it, fails on the first and the third example: the
  pieces \<open>A\<close>, \<open>B\<close>, \<open>C\<close> and \<open>X\<close>, \<open>Y\<close> are shorter than 3 bytes, and the final
  pass of \<^verbatim>\<open>splitByBullets\<close> drops them.
\<close>

theorem splitByBullets_examples_counterexample:
  "splitByBullets (''A '' @ bulletGlyph @ '' B '' @ bulletGlyph @ '' C'') = Some [] \<and>
   splitByBullets (''A '' @ bulletGlyph @ '' B '' @ bulletGlyph @ '' C'') \<noteq> Some [''A'', ''B'', ''C''] \<and>
   splitByBullets (''X '' @ bulletGlyph @ '' X '' @ bulletGlyph @ '' Y'') = Some [] \<and>
   splitByBullets (''X '' @ bulletGlyph @ '' X '' @ bulletGlyph @ '' Y'') \<noteq> Some [''X'', ''Y'']"
  by code_simp

text \<open>
  C3, amended. Splitting \<open>A \<bullet> B \<bullet> C\<close> and \<open>X \<bullet> X \<bullet> Y\<close> gives the empty sequence;
  the text without delimiters comes back as the one item; and with pieces of at least
  3 bytes the examples hold: \<open>Ann \<bullet> Bob \<bullet> Cyd\<close> gives the three items in order and
  \<open>Xen \<bullet> Xen \<bullet> Yak\<close> collapses the duplicate.
\<close>

theorem splitByBullets_examples:
  "splitByBullets (''A '' @ bulletGlyph @ '' B '' @ bulletGlyph @ '' C'') = Some [] \<and>
   splitByBullets ''single sentence without delimiters''
     = Some [''single sentence without delimiters''] \<and>
   splitByBullets (''X '' @ bulletGlyph @ '' X '' @ bulletGlyph @ '' Y'') = Some [] \<and>
   splitByBullets (''Ann '' @ bulletGlyph @ '' Bob '' @ bulletGlyph @ '' Cyd'')
     = Some [''Ann'', ''Bob'', ''Cyd''] \<and>
   splitByBullets (''Xen '' @ bulletGlyph @ '' Xen '' @ bulletGlyph @ '' Yak'')
     = Some [''Xen'', ''Yak'']"
  by code_simp

section \<open>Properties of the field extractor\<close>

lemma returns_Some [simp]: "returns P (Some x) = P x"
  by (simp add: returns_def)

lemma returns_iff: "returns P r \<longleftrightarrow> (\<exists>x. r = Some x \<and> P x)"
  by (cases r) (simp_all add: returns_def)

lemma returns_bind: "returns (\<lambda>x. returns P (f x)) m \<Longrightarrow> returns P (Option.bind m f)"
  by (cases m) (simp_all add: returns_def)

lemma returns_if:
  "(c \<Longrightarrow> returns P a) \<Longrightarrow> (\<not> c \<Longrightarrow> returns P b) \<Longrightarrow> returns P (if c then a else b)"
  by simp

lemma returns_Let: "returns P (f x) \<Longrightarrow> returns P (Let x f)"
  by simp

lemma returns_case_option:
  "(x = None \<Longrightarrow> returns P a) \<Longrightarrow> (\<And>y. x = Some y \<Longrightarrow> returns P (b y)) \<Longrightarrow>
     returns P (case x of None \<Rightarrow> a | Some y \<Rightarrow> b y)"
  by (cases x) simp_all

lemma returns_SomeI: "P x \<Longrightarrow> returns P (Some x)"
  by simp

lemmas returns_intros =
  returns_bind returns_if returns_Let returns_case_option returns_SomeI

lemma returns_mono: "returns P r \<Longrightarrow> (\<And>x. P x \<Longrightarrow> Q x) \<Longrightarrow> returns Q r"
  by (auto simp: returns_iff)

lemma returns_forEach:
  "P s \<Longrightarrow> (\<And>s x. P s \<Longrightarrow> returns P (body s x)) \<Longrightarrow> returns P (forEach body xs s)"
proof (induction xs arbitrary: s)
  case Nil
  then show ?case by simp
next
  case (Cons x xs)
  from Cons.prems obtain s1 where s1: "body s x = Some s1" "P s1"
    by (auto simp: returns_iff)
  from Cons.IH [OF s1(2) Cons.prems(2)] s1(1) show ?case by simp
qed

lemma foldl_invariant:
  "P s \<Longrightarrow> (\<And>s x. P s \<Longrightarrow> P (f s x)) \<Longrightarrow> P (foldl f s xs)"
  by (induction xs arbitrary: s) auto

lemma returns_index_first: "xs \<noteq> [] \<Longrightarrow> P (xs ! 0) \<Longrightarrow> returns P (index xs 0)"
  by (simp add: index_def)

lemma returns_index_second: "1 < length xs \<Longrightarrow> P (xs ! 1) \<Longrightarrow> returns P (index xs 1)"
  by (simp add: index_def)

lemma returns_index_last:
  "2 < length xs \<Longrightarrow> P (xs ! (length xs - 1)) \<Longrightarrow>
     returns P (index xs (int (length xs) - 1))"
  by (cases xs) (simp_all add: index_def)

lemma returns_splitByBullets: "(\<And>out. P out) \<Longrightarrow> returns P (splitByBullets text0)"
  using splitItems_total [of text0] by (auto simp: splitByBullets_def returns_iff)

lemma seedKept_refl [simp]: "seedKept p p"
  by (simp add: seedKept_def)

lemma seedKept_trans: "seedKept p q \<Longrightarrow> seedKept q r \<Longrightarrow> seedKept p r"
  by (simp add: seedKept_def)

lemma seedKept_update [simp]:
  "seedKept p (q\<lparr>Name := n\<rparr>) = seedKept p q"
  "seedKept p (q\<lparr>Verdict := v\<rparr>) = seedKept p q"
  "seedKept p (q\<lparr>Description := d\<rparr>) = seedKept p q"
  "seedKept p (q\<lparr>Pros := ps\<rparr>) = seedKept p q"
  "seedKept p (q\<lparr>Cons := cs\<rparr>) = seedKept p q"
  "seedKept p (q\<lparr>Category := c\<rparr>) = seedKept p q"
  "seedKept p (q\<lparr>ImageURL := u\<rparr>) = seedKept p q"
  "seedKept p (q\<lparr>CreatedAt := t\<rparr>) = seedKept p q"
  "seedKept p (q\<lparr>UpdatedAt := t\<rparr>) = seedKept p q"
  by (simp_all add: seedKept_def)

lemma foldl_kept:
  "seedKept p s \<Longrightarrow> (\<And>s x. seedKept p s \<Longrightarrow> seedKept p (f s x)) \<Longrightarrow>
     seedKept p (foldl f s xs)"
  by (rule foldl_invariant)

lemma foldl_kept_fst:
  "seedKept p (fst s) \<Longrightarrow> (\<And>s x. seedKept p (fst s) \<Longrightarrow> seedKept p (fst (f s x))) \<Longrightarrow>
     seedKept p (fst (foldl f s xs))"
  by (rule foldl_invariant)

lemma returns_forEach_kept:
  assumes "seedKept p (fst s)"
    and "\<And>s x. seedKept p (fst s) \<Longrightarrow> returns (\<lambda>s'. seedKept p (fst s')) (body s x)"
    and "\<And>s'. seedKept p (fst s') \<Longrightarrow> Q s'"
  shows "returns Q (forEach body xs s)"
  by (rule returns_mono [OF returns_forEach [where P = "\<lambda>s. seedKept p (fst s)"]])
     (use assms in auto)

lemma returns_kept_bind:
  "returns (seedKept p) r \<Longrightarrow> (\<And>q. seedKept p q \<Longrightarrow> returns (seedKept p) (f q)) \<Longrightarrow>
     returns (seedKept p) (Option.bind r f)"
  by (auto simp: returns_iff)

text \<open>Block by block: no block panics, and none writes to \<^verbatim>\<open>Score\<close> or \<^verbatim>\<open>URL\<close>.\<close>

lemma extractName_returns: "returns (seedKept p) (extractName doc p)"
  unfolding extractName_def
  by (intro returns_intros returns_index_first)
     (auto intro!: foldl_kept simp: Let_def)

lemma verdictFromMeta_returns: "returns (\<lambda>_. True) (verdictFromMeta attr)"
  unfolding verdictFromMeta_def
  by (intro returns_intros returns_index_last) simp_all

lemma verdictFromNode_returns: "returns (\<lambda>_. True) (verdictFromNode rt verdictText node)"
  unfolding verdictFromNode_def
  by (intro returns_intros returns_index_second) simp_all

lemma extractVerdict_returns: "returns (seedKept p) (extractVerdict rt doc p)"
  unfolding extractVerdict_def
  apply (intro returns_intros)
  apply (rule returns_mono [OF verdictFromMeta_returns])
  apply (intro returns_intros)
   apply (rule returns_mono [OF returns_forEach [of "\<lambda>_. True", OF _ verdictFromNode_returns]])
  apply (simp_all add: Let_def)
  done

lemma LastIndex_le: "LastIndex s sub \<le> int (length s)"
  by (induction s) (auto simp: Let_def)

lemma cutIndex_range: "0 \<le> cutIndex rt t \<and> cutIndex rt t \<le> int (length t)"
  unfolding cutIndex_def Let_def by simp

lemma bodyDescription_returns: "returns (\<lambda>_. True) (bodyDescription rt t)"
  unfolding bodyDescription_def Let_def
  using cutIndex_range by (simp add: sliceTo_def)

lemma descriptionFromBody_returns: "returns (seedKept p) (descriptionFromBody rt doc p)"
  unfolding descriptionFromBody_def
  apply (intro returns_intros)
    apply simp
   apply (rule returns_mono [OF bodyDescription_returns])
   apply simp_all
  done

lemma descriptionFromNodes_kept:
  "seedKept p q \<Longrightarrow> seedKept p (descriptionFromNodes rt doc q)"
  by (simp add: descriptionFromNodes_def split: option.split)

lemma descriptionFromMeta_kept:
  "seedKept p q \<Longrightarrow> seedKept p (descriptionFromMeta doc q)"
  by (simp add: descriptionFromMeta_def Let_def split: option.split)

lemma descriptionFromTable_kept:
  "seedKept p q \<Longrightarrow> seedKept p (descriptionFromTable rt doc q)"
  by (simp add: descriptionFromTable_def Let_def)

lemma prosFromRegex_returns:
  assumes "seedKept p (fst st)" and "\<And>st'. seedKept p (fst st') \<Longrightarrow> Q st'"
  shows "returns Q (prosFromRegex rt htmlString st)"
  unfolding prosFromRegex_def
  by (intro returns_intros returns_index_second returns_splitByBullets assms(2))
     (auto intro!: foldl_kept_fst assms(1) simp: Let_def split_def)

lemma consFromRegex_returns:
  assumes "seedKept p (fst st)" and "\<And>st'. seedKept p (fst st') \<Longrightarrow> Q st'"
  shows "returns Q (consFromRegex htmlString st)"
  unfolding consFromRegex_def
  by (intro returns_intros returns_index_second returns_splitByBullets assms(2))
     (auto intro!: foldl_kept_fst assms(1) simp: Let_def split_def)

lemma prosConsFromNode_returns:
  assumes "seedKept p (fst st)"
  shows "returns (\<lambda>st'. seedKept p (fst st')) (prosConsFromNode rt st node)"
  unfolding prosConsFromNode_def
  by (intro returns_intros returns_index_second returns_splitByBullets)
     (auto intro!: foldl_kept_fst assms simp: Let_def split_def)

lemma prosConsFromListItem_kept:
  "seedKept p q \<Longrightarrow> seedKept p (prosConsFromListItem rt q item)"
  by (simp add: prosConsFromListItem_def Let_def)

lemma extractProsCons_returns: "returns (seedKept p) (extractProsCons rt doc p)"
  unfolding extractProsCons_def
  by (intro returns_intros prosFromRegex_returns [where p = p]
        consFromRegex_returns [where p = p]
        returns_forEach_kept [where p = p] prosConsFromNode_returns)
     (auto intro!: foldl_kept prosConsFromListItem_kept)

lemma categoryFromNode_returns:
  "seedKept p q \<Longrightarrow> returns (seedKept p) (categoryFromNode q node)"
  unfolding categoryFromNode_def
  by (intro returns_intros returns_index_second) (auto simp: Let_def)

lemma inferCategory_kept: "seedKept p q \<Longrightarrow> seedKept p (inferCategory rt doc q)"
  unfolding inferCategory_def Let_def
  by (auto intro!: foldl_kept split: option.split)

lemma extractCategory_returns: "returns (seedKept p) (extractCategory rt doc p)"
  unfolding extractCategory_def
  by (intro returns_intros returns_mono [OF returns_forEach [where P = "seedKept p"]]
        categoryFromNode_returns inferCategory_kept)
     auto

lemma extractImage_kept: "seedKept p q \<Longrightarrow> seedKept p (extractImage baseURL rt doc q)"
  unfolding extractImage_def Let_def
  by (auto intro!: foldl_kept split: option.split)

lemma parseProfile_returns: "returns (seedKept p) (parseProfile baseURL rt doc p)"
  unfolding parseProfile_def Let_def
proof (intro returns_kept_bind, goal_cases)
  case 1
  show ?case by (rule extractName_returns)
next
  case (2 q)
  show ?case
    by (rule returns_mono [OF extractVerdict_returns]) (rule seedKept_trans [OF 2])
next
  case (3 q r)
  show ?case
    by (rule returns_mono [OF descriptionFromBody_returns]) (rule seedKept_trans [OF 3(2)])
next
  case (4 q r s)
  let ?d = "descriptionFromTable rt doc (descriptionFromMeta doc (descriptionFromNodes rt doc s))"
  have "seedKept p ?d"
    by (intro descriptionFromTable_kept descriptionFromMeta_kept descriptionFromNodes_kept 4(3))
  then show ?case
    by (intro returns_mono [OF extractProsCons_returns]) (rule seedKept_trans)
next
  case (5 q r s t)
  show ?case
    by (rule returns_mono [OF extractCategory_returns]) (rule seedKept_trans [OF 5(4)])
next
  case (6 q r s t u)
  then show ?case by (simp add: extractImage_kept)
qed

lemma scrapeProfile_page:
  "\<exists>q. parseProfile baseURL rt doc
          \<lparr>Name = [], URL = baseURL @ ''/profile.jsp?ID='' @ itoa i, Verdict = [],
           Description = [], Pros = [], Cons = [], Score = of_int i, Category = [],
           ImageURL = [], CreatedAt = 0, UpdatedAt = 0\<rparr> = Some q \<and>
        Score q = of_int i \<and> URL q = baseURL @ ''/profile.jsp?ID='' @ itoa i \<and>
        scrapeProfile baseURL rt i (Response 200 (Body doc)) now =
          Some (Inr ((if Name q = [] then q\<lparr>Name := ''Profile '' @ itoa i\<rparr> else q)
                       \<lparr>CreatedAt := now, UpdatedAt := now\<rparr>))"
proof -
  let ?seed = "\<lparr>Name = [], URL = baseURL @ ''/profile.jsp?ID='' @ itoa i, Verdict = [],
           Description = [], Pros = [], Cons = [], Score = of_int i, Category = [],
           ImageURL = [], CreatedAt = 0, UpdatedAt = 0\<rparr>"
  from parseProfile_returns [of ?seed baseURL rt doc]
  obtain q where q: "parseProfile baseURL rt doc ?seed = Some q" "seedKept ?seed q"
    by (auto simp: returns_iff)
  then show ?thesis
    by (simp add: scrapeProfile_def seedKept_def Let_def)
qed

text \<open>The empty document, block by block.\<close>

lemma prosFind_empty_page: "prosFind ''<html><head></head><body></body></html>'' = []"
  by code_simp

lemma consFind_empty_page: "consFind ''<html><head></head><body></body></html>'' = []"
  by code_simp

lemma extractName_empty: "extractName emptyDocument p = Some p"
  by (simp add: extractName_def emptyDocument_def)

lemma extractVerdict_empty: "extractVerdict rt emptyDocument p = Some p"
  by (simp add: extractVerdict_def emptyDocument_def verdictFromMeta_def verdictFromImage_def)

lemma description_empty:
  "descriptionFromBody rt emptyDocument p = Some p"
  "descriptionFromNodes rt emptyDocument p = p"
  "descriptionFromMeta emptyDocument p = p"
  "descriptionFromTable rt emptyDocument p = p"
  by (simp_all add: descriptionFromBody_def descriptionFromNodes_def descriptionFromMeta_def
      descriptionFromTable_def emptyDocument_def)

lemma extractProsCons_empty: "extractProsCons rt emptyDocument p = Some p"
  by (simp add: extractProsCons_def emptyDocument_def prosFromRegex_def consFromRegex_def
      prosFind_empty_page consFind_empty_page del: prosFind.simps consFind.simps)

lemma extractCategory_empty:
  "Description p = [] \<Longrightarrow> extractCategory rt emptyDocument p = Some p"
  by (simp add: extractCategory_def inferCategory_def emptyDocument_def)

lemma extractImage_empty: "extractImage baseURL rt emptyDocument p = p"
  by (simp add: extractImage_def emptyDocument_def)

lemma parseProfile_empty:
  "Description p = [] \<Longrightarrow> parseProfile baseURL rt emptyDocument p = Some p"
  by (simp add: parseProfile_def extractName_empty extractVerdict_empty description_empty
      extractProsCons_empty extractCategory_empty extractImage_empty)

text \<open>
  C7. For every document \<^verbatim>\<open>parseProfile\<close> returns a profile (no index or slice of it
  is out of range), and so does \<^verbatim>\<open>scrapeProfile\<close> once the page is fetched and
  parsed. For the empty document the profile has the placeholder name made from the
  identifier, and its verdict, description, pros, cons, category and image reference
  are empty.
\<close>

theorem extraction_never_fails:
  "(\<exists>profile'. parseProfile baseURL rt doc profile = Some profile') \<and>
   (\<exists>profile'. scrapeProfile baseURL rt i (Response 200 (Body doc)) now = Some (Inr profile')) \<and>
   scrapeProfile baseURL rt i (Response 200 (Body emptyDocument)) now =
     Some (Inr \<lparr>Name = ''Profile '' @ itoa i, URL = baseURL @ ''/profile.jsp?ID='' @ itoa i,
       Verdict = [], Description = [], Pros = [], Cons = [], Score = of_int i,
       Category = [], ImageURL = [], CreatedAt = now, UpdatedAt = now\<rparr>)"
proof (intro conjI)
  show "\<exists>profile'. parseProfile baseURL rt doc profile = Some profile'"
    using parseProfile_returns [of profile baseURL rt doc] by (auto simp: returns_iff)
  show "\<exists>profile'. scrapeProfile baseURL rt i (Response 200 (Body doc)) now = Some (Inr profile')"
    using scrapeProfile_page [of baseURL rt doc i now] by blast
  show "scrapeProfile baseURL rt i (Response 200 (Body emptyDocument)) now =
     Some (Inr \<lparr>Name = ''Profile '' @ itoa i, URL = baseURL @ ''/profile.jsp?ID='' @ itoa i,
       Verdict = [], Description = [], Pros = [], Cons = [], Score = of_int i,
       Category = [], ImageURL = [], CreatedAt = now, UpdatedAt = now\<rparr>)"
    by (simp add: scrapeProfile_def parseProfile_empty)
qed

text \<open>The two example pages, block by block.\<close>

lemma folds_letters:
  "folds CHR ''p'' = [''p'', ''P'']" "folds CHR ''r'' = [''r'', ''R'']"
  "folds CHR ''o'' = [''o'', ''O'']" "folds CHR ''s'' = [''s'', ''S'', [CHR 0xC5, CHR 0xBF]]"
  "folds CHR ''c'' = [''c'', ''C'']" "folds CHR ''n'' = [''n'', ''N'']"
  by code_simp+

lemma regex_annPage:
  "prosFind (the (html (annPage ''Ann is a Jew.''))) = []"
  "consFind (the (html (annPage ''Ann is a Jew.''))) = []"
  "prosFind (the (html (annPage ''Ann is Not.''))) = []"
  "consFind (the (html (annPage ''Ann is Not.''))) = []"
  by (simp_all add: annPage_def prosAt_def consAt_def folds_letters)

lemma extractProsCons_annPage:
  "extractProsCons rt (annPage ''Ann is a Jew.'') p = Some p"
  "extractProsCons rt (annPage ''Ann is Not.'') p = Some p"
  using regex_annPage
  by (simp_all add: extractProsCons_def prosFromRegex_def consFromRegex_def annPage_def
        emptyDocument_def del: prosFind.simps consFind.simps)

lemma title_annPage:
  "Split ''Jew or Not Jew: Ann - JewOrNotJew.com'' '' - ''
     = [''Jew or Not Jew: Ann'', ''JewOrNotJew.com'']"
  "TrimPrefix (TrimSpace ''Jew or Not Jew: Ann'') ''Jew or Not Jew: '' = ''Ann''"
  by code_simp+

lemma extractName_annPage: "extractName (annPage d) p = Some (p\<lparr>Name := ''Ann''\<rparr>)"
  by (simp add: extractName_def annPage_def emptyDocument_def title_annPage index_def Let_def)

lemma verdict_annPage:
  "verdictFromMeta (Some ''Ann is a Jew.'') = Some ''Jew''"
  "verdictFromMeta (Some ''Ann is Not.'') = Some ''Not a Jew''"
  by code_simp+

lemma extractVerdict_annPage:
  "extractVerdict rt (annPage ''Ann is a Jew.'') p = Some (p\<lparr>Verdict := ''Jew''\<rparr>)"
  "extractVerdict rt (annPage ''Ann is Not.'') p = Some (p\<lparr>Verdict := ''Not a Jew''\<rparr>)"
  by (simp_all add: extractVerdict_def annPage_def emptyDocument_def verdict_annPage
      verdictFromImage_def Let_def)

lemma meta_annPage:
  "\<not> HasPrefix ''Ann is a Jew.'' ''JewOrNotJew.com:''"
  "\<not> HasPrefix ''Ann is Not.'' ''JewOrNotJew.com:''"
  "List.find (\<lambda>(clue, category). Contains (ToLower sampleRuntime ''Ann is a Jew.'') clue)
     (rangeOrder sampleRuntime categoryClues) = None"
  "List.find (\<lambda>(clue, category). Contains (ToLower sampleRuntime ''Ann is Not.'') clue)
     (rangeOrder sampleRuntime categoryClues) = None"
  by code_simp+

lemma description_annPage:
  "descriptionFromBody rt (annPage d) p = Some p"
  "descriptionFromNodes rt (annPage d) p = p"
  "descriptionFromTable rt (annPage d) p = p"
  "Description p = [] \<Longrightarrow>
     descriptionFromMeta (annPage ''Ann is a Jew.'') p = p\<lparr>Description := ''Ann is a Jew.''\<rparr>"
  "Description p = [] \<Longrightarrow>
     descriptionFromMeta (annPage ''Ann is Not.'') p = p\<lparr>Description := ''Ann is Not.''\<rparr>"
  by (simp_all add: descriptionFromBody_def descriptionFromNodes_def descriptionFromMeta_def
      descriptionFromTable_def annPage_def emptyDocument_def meta_annPage Let_def)

lemma category_annPage:
  "Category p = [] \<Longrightarrow> Description p = ''Ann is a Jew.'' \<Longrightarrow>
     extractCategory sampleRuntime (annPage ''Ann is a Jew.'') p = Some p"
  "Category p = [] \<Longrightarrow> Description p = ''Ann is Not.'' \<Longrightarrow>
     extractCategory sampleRuntime (annPage ''Ann is Not.'') p = Some p"
  by (simp_all add: extractCategory_def inferCategory_def annPage_def emptyDocument_def
      meta_annPage Let_def)

lemma extractImage_annPage: "extractImage baseURL rt (annPage d) p = p"
  by (simp add: extractImage_def annPage_def emptyDocument_def Let_def)

lemma scrapeProfile_annPage:
  "scrapeProfile baseURL sampleRuntime i (Response 200 (Body (annPage ''Ann is a Jew.''))) now =
     Some (Inr \<lparr>Name = ''Ann'', URL = baseURL @ ''/profile.jsp?ID='' @ itoa i,
       Verdict = ''Jew'', Description = ''Ann is a Jew.'', Pros = [], Cons = [],
       Score = of_int i, Category = [], ImageURL = [], CreatedAt = now, UpdatedAt = now\<rparr>)"
  "scrapeProfile baseURL sampleRuntime i (Response 200 (Body (annPage ''Ann is Not.''))) now =
     Some (Inr \<lparr>Name = ''Ann'', URL = baseURL @ ''/profile.jsp?ID='' @ itoa i,
       Verdict = ''Not a Jew'', Description = ''Ann is Not.'', Pros = [], Cons = [],
       Score = of_int i, Category = [], ImageURL = [], CreatedAt = now, UpdatedAt = now\<rparr>)"
  by (simp_all add: scrapeProfile_def parseProfile_def extractName_annPage
      extractVerdict_annPage description_annPage extractProsCons_annPage category_annPage
      extractImage_annPage Let_def)

text \<open>
  C9. No block of \<^verbatim>\<open>parseProfile\<close> writes to \<^verbatim>\<open>Score\<close>, and the profile that
  \<^verbatim>\<open>scrapeProfile\<close> returns for the identifier \<open>i\<close> has \<^verbatim>\<open>float64(i)\<close> there.
\<close>

theorem score_is_fetch_identifier:
  "(parseProfile baseURL rt doc profile = Some profile' \<longrightarrow> Score profile' = Score profile) \<and>
   (scrapeProfile baseURL rt i resp now = Some (Inr p) \<longrightarrow> Score p = of_int i)"
proof (intro conjI impI)
  assume "parseProfile baseURL rt doc profile = Some profile'"
  with parseProfile_returns [of profile baseURL rt doc]
  show "Score profile' = Score profile"
    by (simp add: seedKept_def)
next
  assume a: "scrapeProfile baseURL rt i resp now = Some (Inr p)"
  then obtain doc where "resp = Response 200 (Body doc)"
    by (auto simp: scrapeProfile_def split: response.splits body.splits if_splits)
  with a scrapeProfile_page [of baseURL rt doc i now]
  show "Score p = of_int i"
    by auto
qed

theorem score_is_fetch_identifier_witness:
  "scrapeProfile ''http://jewornotjew.com'' sampleRuntime 7
     (Response 200 (Body (annPage ''Ann is a Jew.''))) 5 =
     Some (Inr \<lparr>Name = ''Ann'', URL = ''http://jewornotjew.com/profile.jsp?ID=7'',
       Verdict = ''Jew'', Description = ''Ann is a Jew.'', Pros = [], Cons = [],
       Score = 7, Category = [], ImageURL = [], CreatedAt = 5, UpdatedAt = 5\<rparr>) \<and>
   Score \<lparr>Name = ''Ann'', URL = ''http://jewornotjew.com/profile.jsp?ID=7'',
       Verdict = ''Jew'', Description = ''Ann is a Jew.'', Pros = [], Cons = [],
       Score = 7, Category = [], ImageURL = [], CreatedAt = 5, UpdatedAt = 5\<rparr> = of_int 7"
proof -
  have "itoa 7 = ''7''" by code_simp
  then have e: "scrapeProfile ''http://jewornotjew.com'' sampleRuntime 7
     (Response 200 (Body (annPage ''Ann is a Jew.''))) 5 =
     Some (Inr \<lparr>Name = ''Ann'', URL = ''http://jewornotjew.com/profile.jsp?ID=7'',
       Verdict = ''Jew'', Description = ''Ann is a Jew.'', Pros = [], Cons = [],
       Score = 7, Category = [], ImageURL = [], CreatedAt = 5, UpdatedAt = 5\<rparr>)"
    by (simp add: scrapeProfile_annPage)
  with score_is_fetch_identifier
    [of "''http://jewornotjew.com''" sampleRuntime "annPage ''Ann is a Jew.''" annStored
      annStored 7 "Response 200 (Body (annPage ''Ann is a Jew.''))" 5]
  show ?thesis by simp
qed

text \<open>
  C4, evaluated on the code. For \<open>John Doe is a Jew.\<close> the verdict is \<open>Jew\<close>. For
  \<open>Jane Doe is Not a Jew.\<close> the verdict is \<open>Jew\<close> as well, not \<open>Not a Jew\<close>: the
  final word without its period is \<open>Jew\<close>, and the test for \<open>Not\<close> is made on that
  word only, and only after it. The verdict of the whole extraction is this one, since the
  later rules run only when the meta description gave none. A description whose final
  word contains \<open>Not\<close> gives \<open>Not a Jew\<close>.
\<close>

theorem verdict_of_meta_description:
  "verdictFromMeta (Some ''John Doe is a Jew.'') = Some ''Jew'' \<and>
   verdictFromMeta (Some ''Jane Doe is Not a Jew.'') = Some ''Jew'' \<and>
   extractVerdict sampleRuntime (emptyDocument\<lparr>metaDescription := Some ''Jane Doe is Not a Jew.''\<rparr>)
     annStored = Some (annStored\<lparr>Verdict := ''Jew''\<rparr>) \<and>
   verdictFromMeta (Some ''Jane Doe is Not.'') = Some ''Not a Jew''"
  by code_simp

text \<open>
  The description from the body container. \<^const>\<open>LastIndex\<close> is the offset of the last
  occurrence: the text occurs there, and nowhere later.
\<close>

lemma LastIndex_occurs: "0 \<le> LastIndex s sub \<Longrightarrow> prefix sub (drop (nat (LastIndex s sub)) s)"
proof (induction s)
  case Nil
  then show ?case by (simp split: if_splits)
next
  case (Cons c cs)
  show ?case
  proof (cases "0 \<le> LastIndex cs sub")
    case True
    with Cons.IH show ?thesis by (simp add: Let_def nat_add_distrib)
  next
    case False
    with Cons.prems show ?thesis by (simp add: Let_def split: if_splits)
  qed
qed

lemma LastIndex_greatest: "j \<le> length s \<Longrightarrow> prefix sub (drop j s) \<Longrightarrow> int j \<le> LastIndex s sub"
proof (induction s arbitrary: j)
  case Nil
  then show ?case by simp
next
  case (Cons c cs)
  show ?case
  proof (cases j)
    case 0
    with Cons.prems show ?thesis by (simp add: Let_def)
  next
    case (Suc k)
    with Cons.prems have "int k \<le> LastIndex cs sub" by (intro Cons.IH) simp_all
    with Suc show ?thesis by (simp add: Let_def)
  qed
qed

lemma cutIndex_least:
  assumes "l \<in> {''verdict:'', ''pros:'', ''cons:''}"
    and "0 < LastIndex (ToLower rt t) l" and "LastIndex (ToLower rt t) l < int (length t)"
  shows "cutIndex rt t \<le> LastIndex (ToLower rt t) l"
  using assms unfolding cutIndex_def Let_def by auto

lemma cutIndex_cases:
  "cutIndex rt t = int (length t) \<or>
   (\<exists>l \<in> {''verdict:'', ''pros:'', ''cons:''}. 0 < cutIndex rt t \<and> cutIndex rt t = LastIndex (ToLower rt t) l)"
  unfolding cutIndex_def Let_def by auto

text \<open>
  C5, as the specification states it, fails when a label stands twice: the code looks
  for the last occurrence of each label, so in the text below the cut is at \<open>Cons:\<close>
  (offset 52) and the description keeps \<open>Pros: kind\<close>, which follows the earliest label
  (offset 41).
\<close>

theorem descriptionFromBody_earliest_label_counterexample:
  "50 < length (TrimSpace twiceBody) \<and>
   Index (ToLower sampleRuntime twiceBody) ''pros:'' = 41 \<and>
   descriptionFromBody sampleRuntime (emptyDocument\<lparr>profileBody := Some twiceBody\<rparr>) annStored
     = Some (annStored\<lparr>Description := ''Test Person was notable for many things. Pros: kind''\<rparr>) \<and>
   descriptionFromBody sampleRuntime (emptyDocument\<lparr>profileBody := Some twiceBody\<rparr>) annStored
     \<noteq> Some (annStored\<lparr>Description := TrimSpace (take 41 twiceBody)\<rparr>) \<and>
   drop 41 ''Test Person was notable for many things. Pros: kind'' = ''Pros: kind''"
  by code_simp

text \<open>
  Where lowering keeps the byte offsets, a label stands in the lowered text exactly
  where it stands in the text, so \<^const>\<open>LastIndex\<close> in the lowered text is the offset
  of the label's last occurrence in the text.
\<close>

lemma isASCII_lowersInPlace: "isASCII t \<Longrightarrow> lowersInPlace rt t"
  unfolding lowersInPlace_def ToLower_def isASCII_def
  by (induction t) simp_all

lemma inPlace_prefix:
  "list_all2 (\<lambda>c d. if (of_char c :: nat) < 128 then d = lowerByte c
                   else \<not> (of_char d :: nat) < 128) xs ys
   \<Longrightarrow> isASCII l \<Longrightarrow> prefix l ys \<longleftrightarrow> prefix l (map lowerByte xs)"
proof (induction l arbitrary: xs ys)
  case Nil
  then show ?case by simp
next
  case (Cons a l)
  show ?case
  proof (cases xs)
    case Nil
    with Cons.prems show ?thesis by simp
  next
    case (Cons x xs')
    with Cons.prems(1) obtain y ys' where ys: "ys = y # ys'"
      and xy: "if (of_char x :: nat) < 128 then y = lowerByte x else \<not> (of_char y :: nat) < 128"
      and rest: "list_all2 (\<lambda>c d. if (of_char c :: nat) < 128 then d = lowerByte c
                   else \<not> (of_char d :: nat) < 128) xs' ys'"
      by (auto simp: list_all2_Cons1)
    from Cons.prems(2) have a: "(of_char a :: nat) < 128" and l: "isASCII l"
      by (simp_all add: isASCII_def)
    have "a = y \<longleftrightarrow> a = lowerByte x"
    proof (cases "(of_char x :: nat) < 128")
      case True
      with xy show ?thesis by simp
    next
      case False
      with xy a have "a \<noteq> y" "a \<noteq> x" "lowerByte x = x"
        by (auto simp: lowerByte_def)
      then show ?thesis by simp
    qed
    moreover have "prefix l ys' \<longleftrightarrow> prefix l (map lowerByte xs')"
      using Cons.IH [OF rest l] .
    ultimately show ?thesis using Cons ys by simp
  qed
qed

lemma lowersInPlace_labelAt:
  assumes "lowersInPlace rt t" and "isASCII l" and "i \<le> length t"
  shows "prefix l (drop i (ToLower rt t)) \<longleftrightarrow> labelAt l t i"
proof -
  from assms(1)
  have "list_all2 (\<lambda>c d. if (of_char c :: nat) < 128 then d = lowerByte c
                   else \<not> (of_char d :: nat) < 128)
      (drop i t) (drop i (ToLower rt t))"
    unfolding lowersInPlace_def by (rule list_all2_dropI)
  from inPlace_prefix [OF this assms(2)] assms(3) show ?thesis
    by (simp add: labelAt_def)
qed

lemma lowersInPlace_length: "lowersInPlace rt t \<Longrightarrow> length (ToLower rt t) = length t"
  unfolding lowersInPlace_def by (simp add: list_all2_lengthD)

lemma LastIndex_last:
  assumes "lowersInPlace rt t" and "isASCII l" and "labelAt l t i"
    and "\<forall>j. labelAt l t j \<longrightarrow> j \<le> i"
  shows "LastIndex (ToLower rt t) l = int i"
proof -
  from assms(3) have i: "i \<le> length t" by (simp add: labelAt_def)
  with assms have "prefix l (drop i (ToLower rt t))" by (simp add: lowersInPlace_labelAt)
  with i have ge: "int i \<le> LastIndex (ToLower rt t) l"
    using LastIndex_greatest [of i "ToLower rt t" l] assms(1) by (simp add: lowersInPlace_length)
  let ?k = "nat (LastIndex (ToLower rt t) l)"
  from ge have k0: "0 \<le> LastIndex (ToLower rt t) l" by simp
  have k: "?k \<le> length t"
    using LastIndex_le [of "ToLower rt t" l] assms(1) by (simp add: lowersInPlace_length)
  from LastIndex_occurs [OF k0] have "labelAt l t ?k"
    using assms(1,2) k by (simp add: lowersInPlace_labelAt)
  with assms(4) have "?k \<le> i" by blast
  with ge k0 show ?thesis by simp
qed

lemma LastIndex_labelAt:
  assumes "lowersInPlace rt t" and "isASCII l" and "0 \<le> LastIndex (ToLower rt t) l"
  shows "labelAt l t (nat (LastIndex (ToLower rt t) l)) \<and>
         (\<forall>j. labelAt l t j \<longrightarrow> j \<le> nat (LastIndex (ToLower rt t) l))"
proof -
  let ?k = "nat (LastIndex (ToLower rt t) l)"
  have k: "?k \<le> length t"
    using LastIndex_le [of "ToLower rt t" l] assms(1) by (simp add: lowersInPlace_length)
  from LastIndex_occurs [OF assms(3)] have 1: "labelAt l t ?k"
    using assms(1,2) k by (simp add: lowersInPlace_labelAt)
  have "j \<le> ?k" if "labelAt l t j" for j
  proof -
    from that have j: "j \<le> length t" by (simp add: labelAt_def)
    with that assms have "prefix l (drop j (ToLower rt t))" by (simp add: lowersInPlace_labelAt)
    with j have "int j \<le> LastIndex (ToLower rt t) l"
      using LastIndex_greatest [of j "ToLower rt t" l] assms(1) by (simp add: lowersInPlace_length)
    then show ?thesis by simp
  qed
  with 1 show ?thesis by blast
qed

lemma labels_ASCII: "l \<in> {''verdict:'', ''pros:'', ''cons:''} \<Longrightarrow> isASCII l"
  by (auto simp: isASCII_def)

lemma labelAt_inside: "l \<noteq> [] \<Longrightarrow> labelAt l t i \<Longrightarrow> i < length t"
  by (cases "i = length t") (auto simp: labelAt_def)

text \<open>
  Where lowering moves the byte offsets, the cut is displaced: the code finds the
  labels in the lowered text and slices the text itself at the offset found there. In
  the text below each of the five letters U+023A grows by one byte when lowered, so
  the last \<open>pros:\<close> is found at offset 53 while \<open>Pros:\<close> stands at offset 48, and the
  description ends with the label.
\<close>

lemma descriptionFromBody_displaced_cut:
  "50 < length (TrimSpace strokeBody) \<and>
   \<not> lowersInPlace strokeRuntime strokeBody \<and>
   labelAt ''pros:'' strokeBody 48 \<and>
   LastIndex (ToLower strokeRuntime strokeBody) ''pros:'' = 53 \<and>
   descriptionFromBody strokeRuntime (emptyDocument\<lparr>profileBody := Some strokeBody\<rparr>) annStored
     = Some (annStored\<lparr>Description := take 53 strokeBody\<rparr>) \<and>
   drop 41 (take 53 strokeBody) = ''hings. Pros:''"
  by code_simp

text \<open>
  C5, amended. For a body text of more than 50 bytes (trimmed, line ends normalised to
  \<open>t\<close>) whose lowering keeps the byte offsets, the description is the trimmed text
  before a cut \<open>c\<close>. The cut is not after the last occurrence of any of the three
  labels in \<open>t\<close>, as far as that occurrence is at a positive offset; and it is the end
  of \<open>t\<close> or the last occurrence of one of the labels, at a positive offset. So nothing
  at or after the last occurrence of a label is kept, while an earlier occurrence of a
  label that stands again later may be. When no label stands twice, the cut is not
  after any label at a positive offset: it is at the earliest of them.
\<close>

theorem descriptionFromBody_cut:
  assumes "profileBody doc = Some b" and "50 < length (TrimSpace b)"
    and "t = ReplaceAll (ReplaceAll (TrimSpace b) [CHR 0x0D, CHR 0x0A] [CHR 0x0A]) [CHR 0x0D] [CHR 0x0A]"
    and "lowersInPlace rt t"
  shows "\<exists>c. descriptionFromBody rt doc p = Some (p\<lparr>Description := TrimSpace (take c t)\<rparr>) \<and>
     c \<le> length t \<and>
     (\<forall>l \<in> {''verdict:'', ''pros:'', ''cons:''}. \<forall>i.
        0 < i \<and> labelAt l t i \<and> (\<forall>j. labelAt l t j \<longrightarrow> j \<le> i) \<longrightarrow> c \<le> i) \<and>
     (c = length t \<or>
      (\<exists>l \<in> {''verdict:'', ''pros:'', ''cons:''}.
         0 < c \<and> labelAt l t c \<and> (\<forall>j. labelAt l t j \<longrightarrow> j \<le> c))) \<and>
     ((\<forall>l \<in> {''verdict:'', ''pros:'', ''cons:''}. \<forall>i j. labelAt l t i \<and> labelAt l t j \<longrightarrow> i = j) \<longrightarrow>
      (\<forall>l \<in> {''verdict:'', ''pros:'', ''cons:''}. \<forall>i. 0 < i \<and> labelAt l t i \<longrightarrow> c \<le> i))"
proof -
  let ?c = "nat (cutIndex rt t)"
  let ?L = "{''verdict:'', ''pros:'', ''cons:''}"
  have range: "0 \<le> cutIndex rt t" "cutIndex rt t \<le> int (length t)"
    using cutIndex_range [of rt t] by simp_all
  have "bodyDescription rt (TrimSpace b) = Some (TrimSpace (take ?c t))"
    using range by (simp add: bodyDescription_def Let_def sliceTo_def flip: assms(3))
  with assms(1,2)
  have 1: "descriptionFromBody rt doc p = Some (p\<lparr>Description := TrimSpace (take ?c t)\<rparr>)"
    by (simp add: descriptionFromBody_def Let_def)
  have 2: "?c \<le> length t" using range by simp
  have 3: "?c \<le> i"
    if l: "l \<in> ?L" and i: "0 < i" "labelAt l t i" "\<forall>j. labelAt l t j \<longrightarrow> j \<le> i" for l i
  proof -
    have last: "LastIndex (ToLower rt t) l = int i"
      using LastIndex_last [OF assms(4) labels_ASCII [OF l] i(2,3)] .
    from l have "l \<noteq> []" by auto
    then have "i < length t" using i(2) by (rule labelAt_inside)
    with last i(1) have "cutIndex rt t \<le> LastIndex (ToLower rt t) l"
      using cutIndex_least [OF l, of rt t] by simp
    with last show ?thesis by simp
  qed
  have 4: "?c = length t \<or>
      (\<exists>l \<in> ?L. 0 < ?c \<and> labelAt l t ?c \<and> (\<forall>j. labelAt l t j \<longrightarrow> j \<le> ?c))"
  proof (cases "cutIndex rt t = int (length t)")
    case True
    then show ?thesis by simp
  next
    case False
    with cutIndex_cases [of rt t] obtain l where l: "l \<in> ?L"
      and c: "0 < cutIndex rt t" "cutIndex rt t = LastIndex (ToLower rt t) l"
      by blast
    from c have "0 \<le> LastIndex (ToLower rt t) l" by simp
    from LastIndex_labelAt [OF assms(4) labels_ASCII [OF l] this] c l
    show ?thesis by auto
  qed
  have 5: "\<forall>l \<in> ?L. \<forall>i. 0 < i \<and> labelAt l t i \<longrightarrow> ?c \<le> i"
    if once: "\<forall>l \<in> ?L. \<forall>i j. labelAt l t i \<and> labelAt l t j \<longrightarrow> i = j"
  proof (intro ballI allI impI)
    fix l i assume l: "l \<in> ?L" and i: "0 < i \<and> labelAt l t i"
    with once have "\<forall>j. labelAt l t j \<longrightarrow> j \<le> i" by blast
    with 3 [OF l] i show "?c \<le> i" by blast
  qed
  from 1 2 3 4 5 show ?thesis by blast
qed

theorem descriptionFromBody_cut_witness:
  "profileBody (emptyDocument\<lparr>profileBody := Some scenarioBody\<rparr>) = Some scenarioBody \<and>
   50 < length (TrimSpace scenarioBody) \<and>
   lowersInPlace sampleRuntime scenarioBody \<and>
   descriptionFromBody sampleRuntime (emptyDocument\<lparr>profileBody := Some scenarioBody\<rparr>) annStored
     = Some (annStored\<lparr>Description := ''Test Person was notable.''\<rparr>) \<and>
   labelAt ''pros:'' scenarioBody 25 \<and>
   TrimSpace (take 25 scenarioBody) = ''Test Person was notable.''"
proof -
  let ?doc = "emptyDocument\<lparr>profileBody := Some scenarioBody\<rparr>"
  have 1: "profileBody ?doc = Some scenarioBody" by simp
  have 2: "50 < length (TrimSpace scenarioBody)" by code_simp
  have 3: "scenarioBody
      = ReplaceAll (ReplaceAll (TrimSpace scenarioBody) [CHR 0x0D, CHR 0x0A] [CHR 0x0A])
          [CHR 0x0D] [CHR 0x0A]"
    by code_simp
  have 4: "lowersInPlace sampleRuntime scenarioBody" by code_simp
  have e: "descriptionFromBody sampleRuntime ?doc annStored
      = Some (annStored\<lparr>Description := ''Test Person was notable.''\<rparr>) \<and>
    labelAt ''pros:'' scenarioBody 25 \<and>
    TrimSpace (take 25 scenarioBody) = ''Test Person was notable.''"
    by code_simp
  from descriptionFromBody_cut [OF 1 2 3 4, of annStored]
  obtain c where "descriptionFromBody sampleRuntime ?doc annStored
      = Some (annStored\<lparr>Description := TrimSpace (take c scenarioBody)\<rparr>)"
    by blast
  with 1 2 4 e show ?thesis by simp
qed

section \<open>Properties of the merge step\<close>

text \<open>
  C1. A fetched record whose name is already in the record set is classified updated
  exactly when its verdict, its description, its number of pros or its number of cons
  differs from the stored record's. Then the entry becomes the fetched record with the
  stored creation time and the new update time. Otherwise it is classified unchanged and
  the record set stays as it is.
\<close>

theorem mergeProfile_existing:
  assumes "stored (Name p) = Some existing"
  shows "(fst (mergeProfile now p stored) = Updated \<longleftrightarrow>
            (Verdict existing \<noteq> Verdict p \<or> Description existing \<noteq> Description p \<or>
             length (Pros existing) \<noteq> length (Pros p) \<or>
             length (Cons existing) \<noteq> length (Cons p))) \<and>
         (fst (mergeProfile now p stored) = Updated \<longrightarrow>
            snd (mergeProfile now p stored)
              = stored(Name p \<mapsto> p\<lparr>CreatedAt := CreatedAt existing, UpdatedAt := now\<rparr>)) \<and>
         (fst (mergeProfile now p stored) \<noteq> Updated \<longrightarrow>
            fst (mergeProfile now p stored) = Unchanged \<and>
            snd (mergeProfile now p stored) = stored)"
  using assms by (simp add: mergeProfile_def)

theorem mergeProfile_existing_witness:
  "fst (mergeProfile 300 annFetched [''Ann'' \<mapsto> annStored]) = Updated \<and>
   Verdict annStored \<noteq> Verdict annFetched \<and>
   snd (mergeProfile 300 annFetched [''Ann'' \<mapsto> annStored])
     = [''Ann'' \<mapsto> annFetched\<lparr>CreatedAt := 100, UpdatedAt := 300\<rparr>] \<and>
   fst (mergeProfile 300 annStored [''Ann'' \<mapsto> annStored]) = Unchanged \<and>
   snd (mergeProfile 300 annStored [''Ann'' \<mapsto> annStored]) = [''Ann'' \<mapsto> annStored]"
proof -
  have 1: "[''Ann'' \<mapsto> annStored] (Name annFetched) = Some annStored"
    by (simp add: annFetched_def)
  have 2: "[''Ann'' \<mapsto> annStored] (Name annStored) = Some annStored"
    by (simp add: annStored_def)
  have 3: "Verdict annStored \<noteq> Verdict annFetched"
    by (simp add: annStored_def annFetched_def)
  have 4: "Name annFetched = ''Ann''" "Name annStored = ''Ann''" "CreatedAt annStored = 100"
    by (simp_all add: annStored_def annFetched_def)
  show ?thesis
    using mergeProfile_existing
        [where stored = "[''Ann'' \<mapsto> annStored]" and p = annFetched and now = 300, OF 1]
      mergeProfile_existing
        [where stored = "[''Ann'' \<mapsto> annStored]" and p = annStored and now = 300, OF 2]
      3
    by (simp add: 4)
qed

section \<open>Properties of a harvest run\<close>

text \<open>The example schedules.\<close>

lemma run_append: "run b (xs @ ys) s = Option.bind (run b xs s) (run b ys)"
  by (induction xs arbitrary: s) (auto split: Option.bind_splits)

lemma harvest_first: "run b (harvestOne 1) (start Map.empty) = Some (afterHarvest b 1)"
  by (simp add: harvestOne_def pageOf_def start_def afterHarvest_def annAfter_def
      scrapeProfile_annPage mergeProfile_def maxID_def totalProfiles_def
      concurrentRequests_def exit_def)

lemma harvest_next:
  assumes "1 \<le> n" and "n < totalProfiles"
  shows "run b (harvestOne (n + 1)) (afterHarvest b n) = Some (afterHarvest b (n + 1))"
proof (cases "even n")
  case True
  with assms show ?thesis
    by (simp add: harvestOne_def pageOf_def afterHarvest_def annAfter_def
        scrapeProfile_annPage mergeProfile_def maxID_def totalProfiles_def
        concurrentRequests_def exit_def)
next
  case False
  with assms show ?thesis
    by (simp add: harvestOne_def pageOf_def afterHarvest_def annAfter_def
        scrapeProfile_annPage mergeProfile_def maxID_def totalProfiles_def
        concurrentRequests_def exit_def)
qed

lemma harvestUpTo_Suc: "1 \<le> n \<Longrightarrow> harvestUpTo (n + 1) = harvestUpTo n @ harvestOne (n + 1)"
  by (simp add: harvestUpTo_def upto_rec2 [of 1 "n + 1"])

lemma run_harvestUpTo:
  "1 \<le> n \<Longrightarrow> n \<le> totalProfiles \<Longrightarrow>
     run b (harvestUpTo n) (start Map.empty) = Some (afterHarvest b n)"
proof (induction n rule: int_ge_induct)
  case base
  have "harvestUpTo 1 = harvestOne 1"
    by (simp add: harvestUpTo_def upto.simps)
  then show ?case by (simp add: harvest_first)
next
  case (step n)
  from step.prems have n: "n < totalProfiles" "n \<le> totalProfiles" by simp_all
  from step.IH [OF n(2)] harvest_next [OF step.hyps n(1)] show ?case
    by (simp add: harvestUpTo_Suc [OF step.hyps] run_append)
qed

lemma run_raceSchedule:
  "run b raceSchedule (start Map.empty) = Some ((afterHarvest b 3622)\<lparr>dispatcher := Admitted\<rparr>)"
proof -
  have "run b (harvestUpTo 3621) (start Map.empty) = Some (afterHarvest b 3621)"
    by (rule run_harvestUpTo) (simp_all add: totalProfiles_def)
  then show ?thesis
    by (simp add: raceSchedule_def run_append pageOf_def afterHarvest_def annAfter_def
        scrapeProfile_annPage mergeProfile_def maxID_def totalProfiles_def
        concurrentRequests_def exit_def)
qed

lemma itoa_1: "itoa 1 = ''1''"
  by code_simp

lemma run_annRefetch:
  "run baseURL (annRefetch fetched merged) (start [''Ann'' \<mapsto> annStored]) =
     Some ((start [''Ann'' \<mapsto> annStored])
       \<lparr>profiles := [''Ann'' \<mapsto>
           \<lparr>Name = ''Ann'', URL = baseURL @ ''/profile.jsp?ID=1'', Verdict = ''Not a Jew'',
            Description = ''Ann is Not.'', Pros = [], Cons = [], Score = 1, Category = [],
            ImageURL = [], CreatedAt = 100, UpdatedAt = merged\<rparr>],
        successCounter := 1, updatedCounter := 1, nextID := 2\<rparr>)"
  by (simp add: annRefetch_def start_def scrapeProfile_annPage itoa_1 mergeProfile_def
      annStored_def maxID_def totalProfiles_def concurrentRequests_def exit_def)

text \<open>The record set along a run.\<close>

lemma mergeProfile_dom: "dom (snd (mergeProfile now p stored)) = insert (Name p) (dom stored)"
  by (auto simp: mergeProfile_def split: option.splits if_splits)

lemma mergeProfile_others: "n \<noteq> Name p \<Longrightarrow> snd (mergeProfile now p stored) n = stored n"
  by (simp add: mergeProfile_def split: option.splits)

lemma step_profiles:
  assumes "step b e s = Some s'"
  shows "profiles s' = profiles s \<or>
    (\<exists>i now p. e = Merge i now \<and> workers s i = Some (Merging p) \<and>
       profiles s' = snd (mergeProfile now p (profiles s)))"
proof (cases e)
  case Check
  with assms show ?thesis by (auto split: if_splits)
next
  case Dispatch
  with assms show ?thesis by (auto split: if_splits)
next
  case (Fetched i rt resp now)
  with assms show ?thesis
    by (auto simp: exit_def split: option.splits worker.splits sum.splits if_splits)
next
  case (Merge i now)
  with assms show ?thesis by (auto split: option.splits worker.splits)
next
  case (Count i)
  with assms show ?thesis
    by (auto simp: exit_def split: option.splits worker.splits classification.splits)
qed

lemma step_dom:
  assumes "step b e s = Some s'"
  shows "dom (profiles s) \<subseteq> dom (profiles s')"
proof -
  from step_profiles [OF assms]
  consider "profiles s' = profiles s"
    | now p where "profiles s' = snd (mergeProfile now p (profiles s))"
    by blast
  then show ?thesis
  proof cases
    case 1
    then show ?thesis by simp
  next
    case 2
    then show ?thesis by (simp add: mergeProfile_dom subset_insertI)
  qed
qed

lemma run_dom: "run b evs s = Some s' \<Longrightarrow> dom (profiles s) \<subseteq> dom (profiles s')"
proof (induction evs arbitrary: s)
  case Nil
  then show ?case by simp
next
  case (Cons e evs)
  from Cons.prems obtain s1 where s1: "step b e s = Some s1" "run b evs s1 = Some s'"
    by (auto split: Option.bind_splits)
  from step_dom [OF s1(1)] Cons.IH [OF s1(2)] show ?case by blast
qed

text \<open>
  C10. Along a run no name leaves the record set, and a merge step adds the name of the
  fetched record (which may be there already) and leaves the entry of every other
  name as it is.
\<close>

theorem identities_only_grow:
  "(run baseURL evs s = Some s' \<longrightarrow> dom (profiles s) \<subseteq> dom (profiles s')) \<and>
   dom (snd (mergeProfile now p stored)) = insert (Name p) (dom stored) \<and>
   (n \<noteq> Name p \<longrightarrow> snd (mergeProfile now p stored) n = stored n)"
  using run_dom [of baseURL evs s s'] mergeProfile_dom [of now p stored]
    mergeProfile_others [of n p now stored]
  by blast

theorem identities_only_grow_witness:
  "run ''http://jewornotjew.com'' (harvestOne 1) (start Map.empty)
     = Some (afterHarvest ''http://jewornotjew.com'' 1) \<and>
   dom (profiles (start Map.empty)) \<subseteq> dom (profiles (afterHarvest ''http://jewornotjew.com'' 1)) \<and>
   dom (profiles (afterHarvest ''http://jewornotjew.com'' 1)) = {''Ann''} \<and>
   dom (snd (mergeProfile 300 annFetched [''Bob'' \<mapsto> annStored])) = {''Ann'', ''Bob''} \<and>
   snd (mergeProfile 300 annFetched [''Bob'' \<mapsto> annStored]) ''Bob'' = Some annStored"
proof -
  have 1: "run ''http://jewornotjew.com'' (harvestOne 1) (start Map.empty)
     = Some (afterHarvest ''http://jewornotjew.com'' 1)"
    by (rule harvest_first)
  have 2: "Name annFetched = ''Ann''" "''Bob'' \<noteq> Name annFetched"
    by (simp_all add: annFetched_def)
  have 3: "dom (profiles (afterHarvest ''http://jewornotjew.com'' 1)) = {''Ann''}"
    by (simp add: afterHarvest_def)
  from identities_only_grow
    [of "''http://jewornotjew.com''" "harvestOne 1" "start Map.empty"
      "afterHarvest ''http://jewornotjew.com'' 1" 300 annFetched "[''Bob'' \<mapsto> annStored]"
      "''Bob''"]
  show ?thesis
    using 1 2 3 by auto
qed

text \<open>The timestamps along a run.\<close>

lemma scrapeProfile_timestamps:
  assumes "scrapeProfile baseURL rt i resp now = Some (Inr p)"
  shows "CreatedAt p = now \<and> UpdatedAt p = now"
proof -
  from assms obtain doc where "resp = Response 200 (Body doc)"
    by (auto simp: scrapeProfile_def split: response.splits body.splits if_splits)
  with assms scrapeProfile_page [of baseURL rt doc i now] show ?thesis by auto
qed

lemma timely_mono: "timely t s \<Longrightarrow> t \<le> t' \<Longrightarrow> timely t' s"
  unfolding timely_def by (meson order_trans)

lemma mergeProfile_entry:
  assumes "snd (mergeProfile now p stored) n = Some q"
  shows "stored n = Some q \<or> q = p \<or>
    (\<exists>e. stored (Name p) = Some e \<and> q = p\<lparr>CreatedAt := CreatedAt e, UpdatedAt := now\<rparr>)"
  using assms by (auto simp: mergeProfile_def split: option.splits if_splits)

lemma mergeProfile_timely:
  assumes st: "\<forall>n q. stored n = Some q \<longrightarrow> CreatedAt q \<le> UpdatedAt q \<and> CreatedAt q \<le> t"
    and p: "CreatedAt p \<le> UpdatedAt p" "CreatedAt p \<le> t" and t: "t \<le> now"
    and q: "snd (mergeProfile now p stored) n = Some q"
  shows "CreatedAt q \<le> UpdatedAt q \<and> CreatedAt q \<le> now"
proof -
  from mergeProfile_entry [OF q]
  consider "stored n = Some q" | "q = p"
    | e where "stored (Name p) = Some e" "q = p\<lparr>CreatedAt := CreatedAt e, UpdatedAt := now\<rparr>"
    by blast
  then show ?thesis
  proof cases
    case 1
    with st have "CreatedAt q \<le> UpdatedAt q" "CreatedAt q \<le> t" by blast+
    with t show ?thesis by simp
  next
    case 2
    with p t show ?thesis by simp
  next
    case 3
    with st have "CreatedAt e \<le> t" by blast
    with 3 t show ?thesis by simp
  qed
qed

lemma step_timely:
  assumes "step b e s = Some s'" and "timely t s"
    and "case clock e of None \<Rightarrow> t' = t | Some now \<Rightarrow> t \<le> now \<and> t' = now"
  shows "timely t' s'"
proof (cases e)
  case Check
  with assms show ?thesis by (auto simp: timely_def split: if_splits)
next
  case Dispatch
  with assms show ?thesis by (auto simp: timely_def split: if_splits)
next
  case (Fetched i rt resp now)
  with assms(3) have t: "t \<le> now" "t' = now" by simp_all
  from assms(2) t have tm: "timely now s" by (auto intro: timely_mono)
  show ?thesis
  proof (cases "scrapeProfile b rt i resp now")
    case None
    with assms(1) Fetched show ?thesis by (auto split: option.splits worker.splits)
  next
    case (Some r)
    show ?thesis
    proof (cases r)
      case (Inl err)
      with Some assms(1) Fetched tm t show ?thesis
        by (auto simp: timely_def exit_def split: option.splits worker.splits if_splits)
    next
      case (Inr p)
      with Some scrapeProfile_timestamps have "CreatedAt p = now" "UpdatedAt p = now"
        by blast+
      with Inr Some assms(1) Fetched tm t show ?thesis
        by (auto simp: timely_def exit_def split: option.splits worker.splits if_splits)
    qed
  qed
next
  case (Merge i now)
  with assms(3) have t: "t \<le> now" "t' = now" by simp_all
  from assms(1) Merge obtain p where p: "workers s i = Some (Merging p)"
    and s': "s' = s\<lparr>profiles := snd (mergeProfile now p (profiles s)),
                  workers := (workers s)(i \<mapsto> Counting (fst (mergeProfile now p (profiles s))))\<rparr>"
    by (auto split: option.splits worker.splits)
  from assms(2) p have pp: "CreatedAt p \<le> UpdatedAt p" "CreatedAt p \<le> t"
    by (auto simp: timely_def)
  from assms(2) have st: "\<forall>n q. profiles s n = Some q \<longrightarrow> CreatedAt q \<le> UpdatedAt q \<and> CreatedAt q \<le> t"
    by (simp add: timely_def)
  have "CreatedAt q \<le> UpdatedAt q \<and> CreatedAt q \<le> now"
    if "snd (mergeProfile now p (profiles s)) n = Some q" for n q
    using mergeProfile_timely [OF st pp t(1) that] .
  moreover have "CreatedAt q \<le> UpdatedAt q \<and> CreatedAt q \<le> now"
    if "workers s j = Some (Merging q)" for j q
  proof -
    from that assms(2) have "CreatedAt q \<le> UpdatedAt q" "CreatedAt q \<le> t"
      by (auto simp: timely_def)
    with t(1) show ?thesis by simp
  qed
  ultimately show ?thesis
    unfolding timely_def s' t(2) by (auto split: if_splits)
next
  case (Count i)
  with assms show ?thesis
    by (auto simp: timely_def exit_def split: option.splits worker.splits classification.splits if_splits)
qed

lemma run_timely:
  "run b evs s = Some s' \<Longrightarrow> timely t s \<Longrightarrow> ticking t evs \<Longrightarrow> \<exists>t'. timely t' s'"
proof (induction evs arbitrary: s t)
  case Nil
  then show ?case by auto
next
  case (Cons e evs)
  from Cons.prems(1) obtain s1 where s1: "step b e s = Some s1" "run b evs s1 = Some s'"
    by (auto split: Option.bind_splits)
  show ?case
  proof (cases "clock e")
    case None
    with Cons.prems(3) have "ticking t evs" by simp
    moreover have "timely t s1"
      using step_timely [OF s1(1) Cons.prems(2), of t] None by simp
    ultimately show ?thesis using Cons.IH [OF s1(2)] by blast
  next
    case (Some now)
    with Cons.prems(3) have "t \<le> now" "ticking now evs" by simp_all
    moreover have "timely now s1"
      using step_timely [OF s1(1) Cons.prems(2), of now] Some \<open>t \<le> now\<close> by simp
    ultimately show ?thesis using Cons.IH [OF s1(2)] by blast
  qed
qed

text \<open>
  C2, as the specification states it, fails: the update branch stores the creation time
  of the stored record next to the reading of the clock at the merge, whatever the two
  are. Here the stored record was created and updated at 100, the clock of the run reads
  40 and then 50, and the merge leaves a record created at 100 and updated at 50.
\<close>

theorem timestamps_ordered_counterexample:
  "CreatedAt annStored \<le> UpdatedAt annStored \<and>
   ticking 40 (annRefetch 40 50) \<and>
   Option.bind (run ''http://jewornotjew.com'' (annRefetch 40 50) (start [''Ann'' \<mapsto> annStored]))
     (\<lambda>s. profiles s ''Ann'') =
     Some \<lparr>Name = ''Ann'', URL = ''http://jewornotjew.com/profile.jsp?ID=1'', Verdict = ''Not a Jew'',
            Description = ''Ann is Not.'', Pros = [], Cons = [], Score = 1, Category = [],
            ImageURL = [], CreatedAt = 100, UpdatedAt = 50\<rparr> \<and>
   \<not> (100::nat) \<le> 50"
proof -
  have "ticking 40 (annRefetch 40 50)"
    by (simp add: annRefetch_def)
  moreover have "CreatedAt annStored \<le> UpdatedAt annStored"
    by (simp add: annStored_def)
  ultimately show ?thesis
    by (simp add: run_annRefetch)
qed

text \<open>
  C2, amended. If every record loaded at the start was created no later than it was
  updated and no later than the first clock reading \<open>t0\<close>, and the clock readings of
  the run never go back, then at every point of the run every record of the record set
  was created no later than it was updated. A merge step that replaces a record keeps
  the stored creation time and sets the update time to its own clock reading; and a
  fetched record carries the clock reading of its fetch in both fields.
\<close>

theorem timestamps_ordered:
  assumes "\<forall>n p. loaded n = Some p \<longrightarrow> CreatedAt p \<le> UpdatedAt p \<and> CreatedAt p \<le> t0"
    and "ticking t0 evs" and "run baseURL evs (start loaded) = Some s"
  shows "(\<forall>n p. profiles s n = Some p \<longrightarrow> CreatedAt p \<le> UpdatedAt p) \<and>
         (stored (Name q) = Some existing \<and> fst (mergeProfile now q stored) = Updated \<longrightarrow>
            (\<exists>r. snd (mergeProfile now q stored) (Name q) = Some r \<and>
                 CreatedAt r = CreatedAt existing \<and> UpdatedAt r = now)) \<and>
         (scrapeProfile baseURL rt i resp now = Some (Inr q) \<longrightarrow>
            CreatedAt q = now \<and> UpdatedAt q = now)"
proof (intro conjI)
  have "timely t0 (start loaded)"
    using assms(1) by (simp add: timely_def start_def)
  from run_timely [OF assms(3) this assms(2)] obtain t' where "timely t' s" ..
  then show "\<forall>n p. profiles s n = Some p \<longrightarrow> CreatedAt p \<le> UpdatedAt p"
    by (simp add: timely_def)
  show "stored (Name q) = Some existing \<and> fst (mergeProfile now q stored) = Updated \<longrightarrow>
            (\<exists>r. snd (mergeProfile now q stored) (Name q) = Some r \<and>
                 CreatedAt r = CreatedAt existing \<and> UpdatedAt r = now)"
    by (auto simp: mergeProfile_def split: if_splits)
  show "scrapeProfile baseURL rt i resp now = Some (Inr q) \<longrightarrow>
            CreatedAt q = now \<and> UpdatedAt q = now"
    using scrapeProfile_timestamps by blast
qed

theorem timestamps_ordered_witness:
  "ticking 100 (annRefetch 120 130) \<and>
   Option.bind (run ''http://jewornotjew.com'' (annRefetch 120 130) (start [''Ann'' \<mapsto> annStored]))
     (\<lambda>s. profiles s ''Ann'') =
     Some \<lparr>Name = ''Ann'', URL = ''http://jewornotjew.com/profile.jsp?ID=1'',
            Verdict = ''Not a Jew'', Description = ''Ann is Not.'', Pros = [], Cons = [],
            Score = 1, Category = [], ImageURL = [], CreatedAt = 100, UpdatedAt = 130\<rparr> \<and>
   CreatedAt annStored = 100 \<and> (100::nat) \<le> 130"
proof -
  let ?r = "\<lparr>Name = ''Ann'', URL = ''http://jewornotjew.com/profile.jsp?ID=1'',
            Verdict = ''Not a Jew'', Description = ''Ann is Not.'', Pros = [], Cons = [],
            Score = 1, Category = [], ImageURL = [], CreatedAt = 100, UpdatedAt = 130\<rparr>"
  let ?s = "(start [''Ann'' \<mapsto> annStored])
       \<lparr>profiles := [''Ann'' \<mapsto> ?r], successCounter := 1, updatedCounter := 1, nextID := 2\<rparr>"
  have 1: "\<forall>n p. [''Ann'' \<mapsto> annStored] n = Some p \<longrightarrow>
      CreatedAt p \<le> UpdatedAt p \<and> CreatedAt p \<le> 100"
    by (simp add: annStored_def)
  have 2: "ticking 100 (annRefetch 120 130)"
    by (simp add: annRefetch_def)
  have 3: "run ''http://jewornotjew.com'' (annRefetch 120 130) (start [''Ann'' \<mapsto> annStored])
      = Some ?s"
    by (simp add: run_annRefetch)
  have 4: "profiles ?s ''Ann'' = Some ?r" by simp
  from timestamps_ordered [OF 1 2 3] 4 have "CreatedAt ?r \<le> UpdatedAt ?r"
    by blast
  moreover have "CreatedAt annStored = 100" by (simp add: annStored_def)
  ultimately show ?thesis using 2 3 by simp
qed

text \<open>The counters and the dispatch loop along a run.\<close>

lemma finite_pending: "counted s \<Longrightarrow> finite (pending s)"
proof -
  assume "counted s"
  then have "pending s \<subseteq> {1..<nextID s}"
    by (auto simp: counted_def pending_def)
  then show ?thesis by (rule finite_subset) simp
qed

lemma counted_start: "counted (start loaded)"
  by (simp add: counted_def start_def pending_def)

lemma step_counted:
  assumes "step b e s = Some s'" and "counted s"
  shows "counted s'"
proof -
  note fin = finite_pending [OF assms(2)]
  show ?thesis
  proof (cases e)
    case Check
    with assms show ?thesis by (auto simp: counted_def pending_def split: if_splits)
  next
    case Dispatch
    with assms(1) have s': "s' = s\<lparr>semaphore := semaphore s + 1,
                   workers := (workers s)(nextID s \<mapsto> Fetching),
                   nextID := nextID s + 1,
                   dispatcher := AtCheck\<rparr>"
      by (auto split: if_splits)
    from assms(2) have "nextID s \<notin> pending s"
      by (auto simp: counted_def pending_def)
    then have "pending s' = pending s"
      unfolding s' pending_def by (auto split: if_splits)
    with assms(2) show ?thesis
      unfolding counted_def s' by (auto split: if_splits)
  next
    case (Fetched i rt resp now)
    with assms(1) have w: "workers s i = Some Fetching"
      by (auto split: option.splits worker.splits)
    then have notin: "i \<notin> pending s" by (simp add: pending_def)
    from assms(1) Fetched w consider
        (out) "s' = exit i (s\<lparr>failCounter := failCounter s + 1\<rparr>)"
      | (skip) "s' = exit i (s\<lparr>skipCounter := skipCounter s + 1\<rparr>)"
      | (ok) p where "s' = s\<lparr>successCounter := successCounter s + 1,
                            workers := (workers s)(i \<mapsto> Merging p)\<rparr>"
      by (auto split: option.splits sum.splits if_splits)
    then show ?thesis
    proof cases
      case out
      then have "pending s' = pending s"
        using notin by (auto simp: pending_def exit_def)
      with assms(2) out show ?thesis by (auto simp: counted_def exit_def)
    next
      case skip
      then have "pending s' = pending s"
        using notin by (auto simp: pending_def exit_def)
      with assms(2) skip show ?thesis by (auto simp: counted_def exit_def)
    next
      case ok
      then have "pending s' = insert i (pending s)"
        by (auto simp: pending_def)
      with notin fin have "card (pending s') = card (pending s) + 1" by simp
      with assms(2) ok w show ?thesis by (auto simp: counted_def)
    qed
  next
    case (Merge i now)
    with assms(1) obtain p where w: "workers s i = Some (Merging p)"
      and s': "s' = s\<lparr>profiles := snd (mergeProfile now p (profiles s)),
                  workers := (workers s)(i \<mapsto> Counting (fst (mergeProfile now p (profiles s))))\<rparr>"
      by (auto split: option.splits worker.splits)
    from w have "pending s' = pending s"
      unfolding s' pending_def by auto
    with assms(2) w show ?thesis
      unfolding counted_def s' by auto
  next
    case (Count i)
    with assms(1) obtain c where w: "workers s i = Some (Counting c)"
      and s': "s' = exit i (case c of
                          New \<Rightarrow> s\<lparr>newCounter := newCounter s + 1\<rparr>
                        | Updated \<Rightarrow> s\<lparr>updatedCounter := updatedCounter s + 1\<rparr>
                        | Unchanged \<Rightarrow> s\<lparr>skippedCounter := skippedCounter s + 1\<rparr>)"
      by (auto split: option.splits worker.splits)
    from w have mem: "i \<in> pending s" by (simp add: pending_def)
    have "pending s' = pending s - {i}"
      unfolding s' pending_def exit_def by (cases c) auto
    moreover from mem fin have "0 < card (pending s)"
      by (auto simp: card_gt_0_iff)
    ultimately have "int (card (pending s')) = int (card (pending s)) - 1"
      using mem fin by (simp add: card_Diff_singleton of_nat_diff)
    with assms(2) show ?thesis
      unfolding counted_def s' exit_def by (cases c) auto
  qed
qed

lemma run_counted: "run b evs s = Some s' \<Longrightarrow> counted s \<Longrightarrow> counted s'"
proof (induction evs arbitrary: s)
  case Nil
  then show ?case by simp
next
  case (Cons e evs)
  from Cons.prems(1) obtain s1 where s1: "step b e s = Some s1" "run b evs s1 = Some s'"
    by (auto split: Option.bind_splits)
  from Cons.IH [OF s1(2) step_counted [OF s1(1) Cons.prems(2)]] show ?case .
qed

lemma step_after_target:
  assumes "step b e s = Some s'" and "totalProfiles \<le> successCounter s"
  shows "totalProfiles \<le> successCounter s' \<and>
         count_list [e] Dispatch + admitted s' \<le> admitted s"
proof (cases e)
  case Check
  with assms show ?thesis by (auto simp: admitted_def split: if_splits)
next
  case Dispatch
  with assms show ?thesis by (auto simp: admitted_def split: if_splits)
next
  case (Fetched i rt resp now)
  with assms show ?thesis
    by (auto simp: admitted_def exit_def split: option.splits worker.splits sum.splits if_splits)
next
  case (Merge i now)
  with assms show ?thesis
    by (auto simp: admitted_def split: option.splits worker.splits)
next
  case (Count i)
  with assms show ?thesis
    by (auto simp: admitted_def exit_def
        split: option.splits worker.splits classification.splits)
qed

lemma run_after_target:
  "run b evs s = Some s' \<Longrightarrow> totalProfiles \<le> successCounter s \<Longrightarrow>
     count_list evs Dispatch + admitted s' \<le> admitted s"
proof (induction evs arbitrary: s)
  case Nil
  then show ?case by simp
next
  case (Cons e evs)
  from Cons.prems(1) obtain s1 where s1: "step b e s = Some s1" "run b evs s1 = Some s'"
    by (auto split: Option.bind_splits)
  from step_after_target [OF s1(1) Cons.prems(2)]
  have a: "totalProfiles \<le> successCounter s1"
    and b: "count_list [e] Dispatch + admitted s1 \<le> admitted s"
    by simp_all
  from Cons.IH [OF s1(2) a] have "count_list evs Dispatch + admitted s' \<le> admitted s1" .
  with b show ?case by (auto split: if_splits)
qed

text \<open>
  C6, as the specification states it, fails: the loop reads the counter before it
  waits for the throttle tick and the semaphore slot, not after. In the schedule below
  the count of new or updated records reaches 3622, the target, while the loop waits
  with its check for identifier 3623 already passed; the loop then dispatches 3623.
\<close>

theorem dispatch_after_target_counterexample:
  "run ''http://jewornotjew.com'' raceSchedule (start Map.empty)
     = Some ((afterHarvest ''http://jewornotjew.com'' 3622)\<lparr>dispatcher := Admitted\<rparr>) \<and>
   newCounter (afterHarvest ''http://jewornotjew.com'' 3622)
     + updatedCounter (afterHarvest ''http://jewornotjew.com'' 3622) = totalProfiles \<and>
   run ''http://jewornotjew.com'' (raceSchedule @ [Dispatch]) (start Map.empty)
     = Some ((afterHarvest ''http://jewornotjew.com'' 3622)
          \<lparr>nextID := 3624, semaphore := 1, workers := [3623 \<mapsto> Fetching]\<rparr>)"
  by (simp add: run_append run_raceSchedule)
     (simp add: afterHarvest_def totalProfiles_def concurrentRequests_def)

text \<open>
  C6, amended. The loop dispatches an identifier only after a check, and a check lets
  it go on only when the identifier is in range and the count of successful fetches
  (new, updated and unchanged records together) is below the target. The count of new
  or updated records never exceeds the count of successful fetches. So once the count of
  new or updated records has reached the target, at most one more identifier is
  dispatched, the one whose check had passed before, and none if no check had passed.
\<close>

theorem dispatch_stops_at_success_target:
  assumes "run baseURL evs (start loaded) = Some s"
    and "totalProfiles \<le> newCounter s + updatedCounter s"
    and "run baseURL evs' s = Some s'"
  shows "newCounter s + updatedCounter s \<le> successCounter s \<and>
         count_list evs' Dispatch \<le> (if dispatcher s = Admitted then 1 else 0) \<and>
         (step baseURL Dispatch u = Some u' \<longrightarrow> dispatcher u = Admitted) \<and>
         (step baseURL Check u = Some u' \<longrightarrow>
            (dispatcher u' = Admitted \<longleftrightarrow>
               nextID u \<le> maxID \<and> successCounter u < totalProfiles))"
proof (intro conjI)
  have "counted s"
    using run_counted [OF assms(1) counted_start] .
  then show le: "newCounter s + updatedCounter s \<le> successCounter s"
    by (simp add: counted_def)
  with assms(2) have "totalProfiles \<le> successCounter s" by simp
  from run_after_target [OF assms(3) this]
  show "count_list evs' Dispatch \<le> (if dispatcher s = Admitted then 1 else 0)"
    by (simp add: admitted_def split: if_splits)
  show "step baseURL Dispatch u = Some u' \<longrightarrow> dispatcher u = Admitted"
    by (simp split: if_splits)
  show "step baseURL Check u = Some u' \<longrightarrow>
            (dispatcher u' = Admitted \<longleftrightarrow>
               nextID u \<le> maxID \<and> successCounter u < totalProfiles)"
    by (auto split: if_splits)
qed

theorem dispatch_stops_at_success_target_witness:
  "run ''http://jewornotjew.com'' raceSchedule (start Map.empty)
     = Some ((afterHarvest ''http://jewornotjew.com'' 3622)\<lparr>dispatcher := Admitted\<rparr>) \<and>
   totalProfiles \<le> newCounter ((afterHarvest ''http://jewornotjew.com'' 3622)\<lparr>dispatcher := Admitted\<rparr>)
     + updatedCounter ((afterHarvest ''http://jewornotjew.com'' 3622)\<lparr>dispatcher := Admitted\<rparr>) \<and>
   run ''http://jewornotjew.com'' [Dispatch, Check]
       ((afterHarvest ''http://jewornotjew.com'' 3622)\<lparr>dispatcher := Admitted\<rparr>)
     = Some ((afterHarvest ''http://jewornotjew.com'' 3622)
          \<lparr>nextID := 3624, semaphore := 1, workers := [3623 \<mapsto> Fetching],
           dispatcher := Finished\<rparr>) \<and>
   count_list [Dispatch, Check] Dispatch \<le> (1::nat)"
proof -
  let ?b = "''http://jewornotjew.com''"
  let ?s = "(afterHarvest ?b 3622)\<lparr>dispatcher := Admitted\<rparr>"
  let ?s' = "(afterHarvest ?b 3622)
          \<lparr>nextID := 3624, semaphore := 1, workers := [3623 \<mapsto> Fetching],
           dispatcher := Finished\<rparr>"
  have 1: "run ?b raceSchedule (start Map.empty) = Some ?s"
    by (rule run_raceSchedule)
  have 2: "totalProfiles \<le> newCounter ?s + updatedCounter ?s"
    by (simp add: afterHarvest_def totalProfiles_def)
  have 3: "run ?b [Dispatch, Check] ?s = Some ?s'"
    by (simp add: afterHarvest_def totalProfiles_def maxID_def concurrentRequests_def)
  have "dispatcher ?s = Admitted" by simp
  with dispatch_stops_at_success_target [OF 1 2 3]
  have "count_list [Dispatch, Check] Dispatch \<le> (1::nat)"
    by simp
  with 1 2 3 show ?thesis by simp
qed

end
